theory Spec2Isabelle
  imports Main "HOL-Library.Word"
begin

unbundle bit_operations_syntax

section \<open>Data model of gstmatroska.h\<close>

type_synonym guint8 = "8 word"
type_synonym guint32 = "32 word"
type_synonym guint64 = "64 word"

text \<open>
  A \<open>guint8 *\<close> into the mapped adapter memory is modelled by the list of the bytes that
  are readable from the pointer to the end of the mapped window: \<open>p + k\<close> is
  \<open>drop k p\<close>, and \<open>*p\<close> on the empty list is a read past the window. Such a read is
  undefined behaviour in C; every function below that dereferences returns \<open>None\<close> there.
\<close>

type_synonym window = "guint8 list"

record GstMatroskaEbmlInfo =
  ebml_id :: guint32
  ebml_size :: guint64
  data_offset :: guint64
  data_buf :: window

datatype GstMatroskaParserResult =
    GST_MATROSKA_PARSER_OK
  | GST_MATROSKA_PARSER_DONE
  | GST_MATROSKA_PARSER_NOT_SUPPORTED
  | GST_MATROSKA_PARSER_ERROR_PARAM
  | GST_MATROSKA_PARSER_INSUFFICIENT_DATA
  | GST_MATROSKA_PARSER_ERROR

datatype GstMatroskaParserStatus =
    GST_MATROSKA_PARSER_STATUS_INIT
  | GST_MATROSKA_PARSER_STATUS_HEADER
  | GST_MATROSKA_PARSER_STATUS_DATA
  | GST_MATROSKA_PARSER_STATUS_FINISHED

text \<open>\<open>GstMatroskaPointData\<close> with the nested \<open>track_pos\<close> struct flattened.\<close>

record GstMatroskaPointData =
  cue_time :: guint64
  track :: guint64
  cluster_pos :: guint64

text \<open>
  \<open>GstMatroskaParser\<close>. The \<open>GArray *array\<close> is \<open>None\<close> for the null pointer and
  \<open>Some\<close> of the element list otherwise.
\<close>

record GstMatroskaParser =
  len :: guint64
  segment_offset :: guint64
  segment_head_offset :: guint64
  time_scale :: guint64
  duration :: guint64
  offset :: guint64
  consume :: guint64
  cue_point_num :: guint64
  array :: "GstMatroskaPointData list option"
  status :: GstMatroskaParserStatus
  is_discard_ebml_header :: bool
  total_length :: guint64

section \<open>Element identifiers\<close>

definition GST_EBML_ID_HEADER :: guint32 where
  "GST_EBML_ID_HEADER = 0x1A45DFA3"

definition GST_MATROSKA_ID_SEGMENT :: guint32 where
  "GST_MATROSKA_ID_SEGMENT = 0x18538067"

definition GST_MATROSKA_ID_CLUSTER :: guint32 where
  "GST_MATROSKA_ID_CLUSTER = 0x1F43B675"

definition GST_MATROSKA_ID_SEEKHEAD :: guint32 where
  "GST_MATROSKA_ID_SEEKHEAD = 0x114D9B74"

definition GST_MATROSKA_ID_SEGMENTINFO :: guint32 where
  "GST_MATROSKA_ID_SEGMENTINFO = 0x1549A966"

definition GST_MATROSKA_ID_CUES :: guint32 where
  "GST_MATROSKA_ID_CUES = 0x1C53BB6B"

definition GST_MATROSKA_ID_TIMECODESCALE :: guint32 where
  "GST_MATROSKA_ID_TIMECODESCALE = 0x2AD7B1"

definition GST_MATROSKA_ID_DURATION :: guint32 where
  "GST_MATROSKA_ID_DURATION = 0x4489"

definition GST_MATROSKA_ID_POINTENTRY :: guint32 where
  "GST_MATROSKA_ID_POINTENTRY = 0xBB"

definition GST_MATROSKA_ID_CUETIME :: guint32 where
  "GST_MATROSKA_ID_CUETIME = 0xB3"

definition GST_MATROSKA_ID_CUETRACKPOSITION :: guint32 where
  "GST_MATROSKA_ID_CUETRACKPOSITION = 0xB7"

definition GST_MATROSKA_ID_CUETRACK :: guint32 where
  "GST_MATROSKA_ID_CUETRACK = 0xF7"

definition GST_MATROSKA_ID_CUECLUSTERPOSITION :: guint32 where
  "GST_MATROSKA_ID_CUECLUSTERPOSITION = 0xF1"

section \<open>Variable-length integer codec\<close>

text \<open>
  \<open>gst_matroska_parser_read_len\<close>: the loop \<open>for (i = 0; i < 8; i++)\<close> that breaks at
  the first \<open>i\<close> with \<open>(data & (0x80 >> i)) != 0\<close>; \<open>read_len_scan data i\<close> is the value
  of \<open>i\<close> when the loop is left, started at \<open>i\<close>.
\<close>

function read_len_scan :: "guint8 \<Rightarrow> nat \<Rightarrow> nat" where
  "read_len_scan data i =
     (if i < 8
      then (if data AND drop_bit i 0x80 \<noteq> 0 then i else read_len_scan data (i + 1))
      else i)"
  by pat_completeness auto
termination
  by (relation "measure (\<lambda>(data, i). 8 - i)") auto

declare read_len_scan.simps [simp del]

text \<open>The \<open>gint32\<close> result \<open>i + 1\<close> lies in 1..9 and is kept as a natural number.\<close>

definition gst_matroska_parser_read_len :: "guint8 \<Rightarrow> nat" where
  "gst_matroska_parser_read_len data = read_len_scan data 0 + 1"

text \<open>
  \<open>gst_matroska_parser_read_data\<close>: \<open>while (len--) { data <<= 8; data |= *p++; }\<close>.
\<close>

fun read_data_loop :: "window \<Rightarrow> nat \<Rightarrow> guint64 \<Rightarrow> guint64 option" where
  "read_data_loop p 0 data = Some data"
| "read_data_loop [] (Suc n) data = None"
| "read_data_loop (b # p) (Suc n) data = read_data_loop p n (push_bit 8 data OR ucast b)"

text \<open>
  The parameter \<open>len\<close> is a \<open>gint64\<close>, given here by its value. The pointer is never
  null at the call sites. A negative \<open>len\<close> passes the guard and makes the loop read
  more than \<open>2 ^ 63\<close> bytes, which leaves every window.
\<close>

definition gst_matroska_parser_read_data :: "window \<Rightarrow> int \<Rightarrow> guint64 option" where
  "gst_matroska_parser_read_data p n =
     (if n = 0 \<or> n > 8 then Some 0
      else if n < 0 then None
      else read_data_loop p (nat n) 0)"

text \<open>
  \<open>gst_matroska_parser_read_data_len\<close>: the first byte minus \<open>1 << (8 - len)\<close>, then
  \<open>while (--len) data = (data << 8) | (*p8++);\<close>.
\<close>

fun read_data_len_loop :: "window \<Rightarrow> nat \<Rightarrow> guint64 \<Rightarrow> guint64 option" where
  "read_data_len_loop p 0 data = Some data"
| "read_data_len_loop [] (Suc n) data = None"
| "read_data_len_loop (b # p) (Suc n) data =
     read_data_len_loop p n (push_bit 8 data OR ucast b)"

definition gst_matroska_parser_read_data_len :: "window \<Rightarrow> guint64 \<Rightarrow> guint64 option" where
  "gst_matroska_parser_read_data_len p_buf n =
     (if n = 0 \<or> n > 8 then Some 0
      else (case p_buf of
              [] \<Rightarrow> None
            | b # p8 \<Rightarrow>
                read_data_len_loop p8 (unat n - 1) (ucast b - push_bit (8 - unat n) 1)))"

section \<open>Element header reader\<close>

text \<open>The table \<open>unknown_length[8]\<close> of \<open>gst_matroska_read_one_ebml_info\<close>.\<close>

definition unknown_length :: "guint64 list" where
  "unknown_length =
     [0x7F, 0x3FFF, 0x1FFFFF, 0x0FFFFFFF, 0x07FFFFFFFF, 0x03FFFFFFFFFF,
      0x01FFFFFFFFFFFF, 0x00FFFFFFFFFFFFFF]"

text \<open>
  \<open>gst_matroska_read_one_ebml_info (buf, size, p_info)\<close> returns the \<open>guint64\<close> result
  together with the content of \<open>*p_info\<close> afterwards. Neither \<open>buf\<close> nor \<open>p_info\<close> is
  null at the only call site, so of the first guard \<open>!size\<close> remains. Every \<open>return 0\<close>
  of the source is a result \<open>(0, _)\<close>; \<open>rem_size <= len\<close> compares unsigned 64-bit values.
\<close>

definition gst_matroska_read_one_ebml_info ::
  "window \<Rightarrow> guint64 \<Rightarrow> GstMatroskaEbmlInfo \<Rightarrow> (guint64 \<times> GstMatroskaEbmlInfo) option" where
  "gst_matroska_read_one_ebml_info buf sz p_info =
     (if sz = 0 then Some (0, p_info)
      else (case buf of
        [] \<Rightarrow> None
      | b # _ \<Rightarrow>
        (let n = gst_matroska_parser_read_len b in
         if sz \<le> of_nat n \<or> n > 8 then Some (0, p_info)
         else (case gst_matroska_parser_read_data buf (int n) of
           None \<Rightarrow> None
         | Some v \<Rightarrow>
           (let p_info1 = p_info\<lparr>ebml_id := ucast v\<rparr>;
                p8 = drop n buf;
                rem_size = sz - of_nat n
            in (case p8 of
              [] \<Rightarrow> None
            | b' # _ \<Rightarrow>
              (let m = gst_matroska_parser_read_len b' in
               if rem_size \<le> of_nat m \<or> m > 8 then Some (0, p_info1)
               else (case gst_matroska_parser_read_data_len p8 (of_nat m) of
                 None \<Rightarrow> None
               | Some s \<Rightarrow>
                 (let s' = (if unknown_length ! (m - 1) = s then 0x7FFFFFFFFFFFFFFF else s);
                      p8' = drop m p8
                  in Some (of_nat n + of_nat m + s',
                           p_info1\<lparr>ebml_size := s',
                                    data_buf := p8',
                                    data_offset := of_nat n + of_nat m\<rparr>))))))))))"

section \<open>Stream parser\<close>

definition zero_parser :: GstMatroskaParser where
  "zero_parser =
     \<lparr>len = 0, segment_offset = 0, segment_head_offset = 0, time_scale = 0, duration = 0,
      offset = 0, consume = 0, cue_point_num = 0, array = None,
      status = GST_MATROSKA_PARSER_STATUS_INIT, is_discard_ebml_header = False,
      total_length = 0\<rparr>"

text \<open>
  \<open>gst_matroska_parser_init\<close>: after the log message the structure is zeroed by
  \<open>memset\<close>; status 0 is \<open>GST_MATROSKA_PARSER_STATUS_INIT\<close>.
\<close>

definition gst_matroska_parser_init :: "GstMatroskaParser \<Rightarrow> GstMatroskaParser" where
  "gst_matroska_parser_init parser = zero_parser"

text \<open>\<open>g_array_free\<close> releases the list, then the structure is zeroed.\<close>

definition gst_matroska_parser_clear :: "GstMatroskaParser \<Rightarrow> GstMatroskaParser" where
  "gst_matroska_parser_clear parser = zero_parser"

text \<open>
  \<open>gst_matroska_parser_check_id\<close>. The adapter is the list of its available bytes:
  \<open>gst_adapter_available\<close> is the length, \<open>gst_adapter_map (adapter, len)\<close> the first
  \<open>len\<close> bytes.
\<close>

definition gst_matroska_parser_check_id ::
  "GstMatroskaParser \<Rightarrow> guint64 \<Rightarrow> guint32 \<Rightarrow> window \<Rightarrow> GstMatroskaParserResult option" where
  "gst_matroska_parser_check_id parser ident n adapter =
     (let avail = (of_nat (length adapter) :: guint64) in
      if avail < ucast n then Some GST_MATROSKA_PARSER_INSUFFICIENT_DATA
      else (case gst_matroska_parser_read_data (take (unat n) adapter) (uint n) of
        None \<Rightarrow> None
      | Some v \<Rightarrow>
          Some (if v \<noteq> ident then GST_MATROSKA_PARSER_NOT_SUPPORTED
                else GST_MATROSKA_PARSER_OK)))"

text \<open>
  The body of the \<open>while (TRUE)\<close> loop of \<open>gst_matroska_parser_extract_data\<close>, in the
  order of the source: the adjustment of \<open>consume\<close> for Segment, Cues and Cluster, the
  pointer \<open>entry\<close> to the last cue point, the \<open>switch\<close>, and the bookkeeping after it.
\<close>

definition adjust_consume :: "GstMatroskaEbmlInfo \<Rightarrow> guint64 \<Rightarrow> guint64" where
  "adjust_consume embl_info c =
     (if c \<noteq> 0 \<and>
         (ebml_id embl_info = GST_MATROSKA_ID_SEGMENT \<or>
          ebml_id embl_info = GST_MATROSKA_ID_CUES \<or>
          ebml_id embl_info = GST_MATROSKA_ID_CLUSTER) \<and>
         c > ebml_size embl_info
      then c - ebml_size embl_info else c)"

text \<open>
  The local pointer \<open>entry\<close> is the index of the addressed element, \<open>None\<close> for the
  null pointer. It is declared before the loop and assigned in an iteration only under
  \<open>parser->array && parser->cue_point_num\<close>; otherwise it keeps its value.
\<close>

definition current_entry :: "GstMatroskaParser \<Rightarrow> nat option \<Rightarrow> nat option" where
  "current_entry parser entry =
     (case array parser of
        None \<Rightarrow> entry
      | Some a \<Rightarrow>
          (if cue_point_num parser \<noteq> 0 then Some (unat (cue_point_num parser - 1))
           else entry))"

text \<open>A store through \<open>entry\<close>; an index outside the array is a write out of bounds.\<close>

definition store_entry ::
  "GstMatroskaParser \<Rightarrow> nat \<Rightarrow> (GstMatroskaPointData \<Rightarrow> GstMatroskaPointData) \<Rightarrow>
   GstMatroskaParser option" where
  "store_entry parser i f =
     (case array parser of
        None \<Rightarrow> None
      | Some a \<Rightarrow>
          (if i < length a then Some (parser\<lparr>array := Some (a[i := f (a ! i)])\<rparr>)
           else None))"

definition zero_point :: GstMatroskaPointData where
  "zero_point = \<lparr>cue_time = 0, track = 0, cluster_pos = 0\<rparr>"

text \<open>
  The payload of a leaf is read with
  \<open>gst_matroska_parser_read_data (embl_info.data_buf, embl_info.size)\<close>; the \<open>guint64\<close>
  size is converted to the \<open>gint64\<close> parameter.
\<close>

definition read_payload :: "GstMatroskaEbmlInfo \<Rightarrow> guint64 option" where
  "read_payload embl_info =
     gst_matroska_parser_read_data (data_buf embl_info) (sint (ebml_size embl_info))"

datatype switch_result =
    Switch_Return GstMatroskaParserResult
  | Switch_Break GstMatroskaParser guint64

definition extract_data_switch ::
  "GstMatroskaParser \<Rightarrow> GstMatroskaEbmlInfo \<Rightarrow> guint64 \<Rightarrow> nat option \<Rightarrow>
   switch_result option" where
  "extract_data_switch parser embl_info c entry =
     (let i = ebml_id embl_info in
      if i = GST_EBML_ID_HEADER then
        Some (Switch_Break (parser\<lparr>consume := 0\<rparr>) c)
      else if i = GST_MATROSKA_ID_SEGMENT then
        Some (Switch_Break (parser\<lparr>segment_offset := consume parser\<rparr>)
                (data_offset embl_info))
      else if i = GST_MATROSKA_ID_SEEKHEAD then
        Some (Switch_Break (parser\<lparr>segment_head_offset := consume parser\<rparr>) c)
      else if i = GST_MATROSKA_ID_SEGMENTINFO then
        Some (Switch_Break parser (data_offset embl_info))
      else if i = GST_MATROSKA_ID_TIMECODESCALE then
        (case read_payload embl_info of
           None \<Rightarrow> None
         | Some v \<Rightarrow> Some (Switch_Break (parser\<lparr>time_scale := v\<rparr>) c))
      else if i = GST_MATROSKA_ID_DURATION then
        (case read_payload embl_info of
           None \<Rightarrow> None
         | Some v \<Rightarrow> Some (Switch_Break (parser\<lparr>duration := v\<rparr>) c))
      else if i = GST_MATROSKA_ID_CUES then
        Some (Switch_Break
                (parser\<lparr>len := consume parser + data_offset embl_info + ebml_size embl_info\<rparr>)
                (data_offset embl_info))
      else if i = GST_MATROSKA_ID_POINTENTRY then
        Some (Switch_Break
                (parser\<lparr>array := Some ((case array parser of None \<Rightarrow> [] | Some a \<Rightarrow> a)
                                         @ [zero_point]),
                        cue_point_num := cue_point_num parser + 1\<rparr>)
                (data_offset embl_info))
      else if i = GST_MATROSKA_ID_CUETIME then
        (case entry of
           None \<Rightarrow> Some (Switch_Break parser c)
         | Some e \<Rightarrow>
             (case read_payload embl_info of
                None \<Rightarrow> None
              | Some v \<Rightarrow>
                  (case store_entry parser e (\<lambda>d. d\<lparr>cue_time := v\<rparr>) of
                     None \<Rightarrow> None
                   | Some parser' \<Rightarrow> Some (Switch_Break parser' c))))
      else if i = GST_MATROSKA_ID_CUETRACKPOSITION then
        Some (Switch_Break parser (data_offset embl_info))
      else if i = GST_MATROSKA_ID_CUECLUSTERPOSITION then
        (case entry of
           None \<Rightarrow> Some (Switch_Break parser c)
         | Some e \<Rightarrow>
             (case read_payload embl_info of
                None \<Rightarrow> None
              | Some v \<Rightarrow>
                  (case store_entry parser e (\<lambda>d. d\<lparr>cluster_pos := v\<rparr>) of
                     None \<Rightarrow> None
                   | Some parser' \<Rightarrow> Some (Switch_Break parser' c))))
      else if i = GST_MATROSKA_ID_CUETRACK then
        (case entry of
           None \<Rightarrow> Some (Switch_Break parser c)
         | Some e \<Rightarrow>
             (case read_payload embl_info of
                None \<Rightarrow> None
              | Some v \<Rightarrow>
                  (case store_entry parser e (\<lambda>d. d\<lparr>track := v\<rparr>) of
                     None \<Rightarrow> None
                   | Some parser' \<Rightarrow> Some (Switch_Break parser' c))))
      else if i = GST_MATROSKA_ID_CLUSTER then
        Some (Switch_Return GST_MATROSKA_PARSER_DONE)
      else Some (Switch_Break parser c))"

datatype iter_result =
    Iter_Return GstMatroskaParserResult GstMatroskaParser
  | Iter_Continue GstMatroskaParser guint64 guint64 GstMatroskaEbmlInfo "nat option"

text \<open>
  \<open>len -= consume; offset += consume; parser->consume += consume;\<close> and the test
  \<open>parser->len && parser->consume >= parser->len\<close> that leaves the loop with
  \<open>GST_MATROSKA_PARSER_DONE\<close>.
\<close>

definition extract_data_advance ::
  "GstMatroskaParser \<Rightarrow> guint64 \<Rightarrow> guint64 \<Rightarrow> guint64 \<Rightarrow> GstMatroskaEbmlInfo \<Rightarrow>
   nat option \<Rightarrow> iter_result" where
  "extract_data_advance parser off n c embl_info entry =
     (let parser' = parser\<lparr>consume := consume parser + c\<rparr> in
      if len parser' \<noteq> 0 \<and> consume parser' \<ge> len parser'
      then Iter_Return GST_MATROSKA_PARSER_DONE (parser'\<lparr>offset := off + c\<rparr>)
      else Iter_Continue parser' (off + c) (n - c) embl_info entry)"

text \<open>
  One iteration, with the local variables \<open>offset\<close> (here \<open>off\<close>), \<open>len\<close> (here \<open>n\<close>),
  \<open>embl_info\<close> and \<open>entry\<close> as arguments; \<open>p_buf + offset\<close> is \<open>drop (unat off) p_buf\<close>.
\<close>

definition extract_data_iter ::
  "GstMatroskaParser \<Rightarrow> window \<Rightarrow> guint64 \<Rightarrow> guint64 \<Rightarrow> GstMatroskaEbmlInfo \<Rightarrow>
   nat option \<Rightarrow> iter_result option" where
  "extract_data_iter parser p_buf off n embl_info entry =
     (case gst_matroska_read_one_ebml_info (drop (unat off) p_buf) n embl_info of
        None \<Rightarrow> None
      | Some (c0, embl_info') \<Rightarrow>
          (let c = adjust_consume embl_info' c0 in
           if c = 0 \<or> n < c
           then Some (Iter_Return GST_MATROSKA_PARSER_OK
                        (if off \<noteq> 0 then parser\<lparr>offset := off\<rparr> else parser))
           else (let entry' = current_entry parser entry in
                 case extract_data_switch parser embl_info' c entry' of
                   None \<Rightarrow> None
                 | Some (Switch_Return r) \<Rightarrow> Some (Iter_Return r parser)
                 | Some (Switch_Break parser' c') \<Rightarrow>
                     Some (extract_data_advance parser' off n c' embl_info' entry'))))"

text \<open>The parser state that an iteration returns or continues with.\<close>

fun iter_parser :: "iter_result \<Rightarrow> GstMatroskaParser" where
  "iter_parser (Iter_Return r parser) = parser"
| "iter_parser (Iter_Continue parser off n embl_info entry) = parser"

text \<open>
  The loop itself. Every iteration that continues has consumed at least one byte of the
  remaining length \<open>n\<close>, which is the termination argument.
\<close>

function extract_data_loop ::
  "GstMatroskaParser \<Rightarrow> window \<Rightarrow> guint64 \<Rightarrow> guint64 \<Rightarrow> GstMatroskaEbmlInfo \<Rightarrow>
   nat option \<Rightarrow> (GstMatroskaParserResult \<times> GstMatroskaParser) option" where
  "extract_data_loop parser p_buf off n embl_info entry =
     (case extract_data_iter parser p_buf off n embl_info entry of
        None \<Rightarrow> None
      | Some (Iter_Return r parser') \<Rightarrow> Some (r, parser')
      | Some (Iter_Continue parser' off' n' embl_info' entry') \<Rightarrow>
          extract_data_loop parser' p_buf off' n' embl_info' entry')"
  by pat_completeness auto
termination
proof (relation "measure (\<lambda>(parser, p_buf, off, n, embl_info, entry). unat n)")
  show "wf (measure (\<lambda>(parser, p_buf, off, n, embl_info, entry). unat n))"
    by simp
next
  fix parser p_buf off n embl_info entry x2 parser' off' n' embl_info' entry'
  assume "extract_data_iter parser p_buf off n embl_info entry = Some x2"
    and "x2 = Iter_Continue parser' off' n' embl_info' entry'"
  then have it: "extract_data_iter parser p_buf off n embl_info entry =
      Some (Iter_Continue parser' off' n' embl_info' entry')"
    by simp
  then obtain c0 info1 q c' e where
    rd: "gst_matroska_read_one_ebml_info (drop (unat off) p_buf) n embl_info = Some (c0, info1)"
    and chk: "adjust_consume info1 c0 \<noteq> 0" "\<not> n < adjust_consume info1 c0"
    and sw: "extract_data_switch parser info1 (adjust_consume info1 c0) e
             = Some (Switch_Break q c')"
    and adv: "extract_data_advance q off n c' info1 e =
              Iter_Continue parser' off' n' embl_info' entry'"
    unfolding extract_data_iter_def Let_def
    by (auto split: option.splits if_splits switch_result.splits prod.splits)
  from chk(1) have c0: "c0 \<noteq> 0"
    by (auto simp: adjust_consume_def split: if_splits)
  have range: "1 \<le> gst_matroska_parser_read_len b" for b
    by (simp add: gst_matroska_parser_read_len_def)
  define buf where "buf = drop (unat off) p_buf"
  define k where "k = gst_matroska_parser_read_len (hd buf)"
  define m where "m = gst_matroska_parser_read_len (hd (drop k buf))"
  have km: "1 \<le> k" "1 \<le> m"
    unfolding k_def m_def by (rule range)+
  from rd have rd': "gst_matroska_read_one_ebml_info buf n embl_info = Some (c0, info1)"
    by (simp add: buf_def)
  from rd' c0 have hdr:
    "k \<le> 8 \<and> m \<le> 8 \<and> \<not> n \<le> of_nat k \<and> \<not> n - of_nat k \<le> of_nat m \<and>
     data_offset info1 = of_nat k + of_nat m"
    unfolding gst_matroska_read_one_ebml_info_def Let_def k_def m_def
    by (auto simp: not_less split: if_splits list.splits option.splits)
  then have k8: "k \<le> 8" and m8: "m \<le> 8"
    and lt1: "\<not> n \<le> of_nat k" and lt2: "\<not> n - of_nat k \<le> of_nat m"
    and doff: "data_offset info1 = of_nat k + of_nat m"
    by simp_all
  have un: "unat (of_nat k :: guint64) = k" "unat (of_nat m :: guint64) = m"
    using k8 m8 by (simp_all add: unat_of_nat)
  from lt1 have a: "k < unat n"
    by (simp add: word_le_nat_alt un not_le)
  then have "unat (n - of_nat k) = unat n - k"
    by (simp add: unat_sub word_le_nat_alt un)
  with lt2 have b: "m < unat n - k"
    by (simp add: word_le_nat_alt un not_le)
  have unm: "unat (of_nat k + of_nat m :: guint64) = k + m"
    using k8 m8 by (simp add: unat_word_ariths un)
  have off_bound: "unat (data_offset info1) \<noteq> 0 \<and> unat (data_offset info1) < unat n"
    using a b km unfolding doff unm by arith
  from sw have "c' = adjust_consume info1 c0 \<or> c' = data_offset info1"
    unfolding extract_data_switch_def Let_def
    by (simp split: if_splits option.splits)
  with off_bound chk have c': "unat c' \<noteq> 0 \<and> unat c' \<le> unat n"
    by (auto simp: word_less_nat_alt unat_0_iff)
  from adv have "n' = n - c'"
    unfolding extract_data_advance_def Let_def by (simp split: if_splits)
  with c' have "unat n' < unat n"
    by (simp add: unat_sub word_le_nat_alt)
  then show "((parser', p_buf, off', n', embl_info', entry'),
               (parser, p_buf, off, n, embl_info, entry))
      \<in> measure (\<lambda>(parser, p_buf, off, n, embl_info, entry). unat n)"
    by simp
qed

declare extract_data_loop.simps [simp del]

text \<open>
  \<open>gst_matroska_parser_extract_data\<close>: the loop is entered with \<open>offset = parser->offset\<close>,
  \<open>len = gst_adapter_available (adapter)\<close> and \<open>entry = NULL\<close>; \<open>p_buf\<close> maps all
  available bytes. The local \<open>embl_info\<close> is not initialised; it is read only after
  \<open>gst_matroska_read_one_ebml_info\<close> has written all of its fields, so that its first
  content, zero here, does not reach any result.
\<close>

definition uninitialised_info :: GstMatroskaEbmlInfo where
  "uninitialised_info = \<lparr>ebml_id = 0, ebml_size = 0, data_offset = 0, data_buf = []\<rparr>"

definition gst_matroska_parser_extract_data ::
  "GstMatroskaParser \<Rightarrow> window \<Rightarrow> (GstMatroskaParserResult \<times> GstMatroskaParser) option" where
  "gst_matroska_parser_extract_data parser adapter =
     extract_data_loop parser adapter (offset parser) (of_nat (length adapter))
       uninitialised_info None"

text \<open>
  \<open>gst_matroska_parser_entry\<close>. The \<open>switch\<close> falls through its cases; each label is a
  definition that continues with the next one. A null \<open>parser\<close> or \<open>adapter\<close> is \<open>None\<close>.
\<close>

definition entry_status_data ::
  "GstMatroskaParser \<Rightarrow> window \<Rightarrow> (GstMatroskaParserResult \<times> GstMatroskaParser) option" where
  "entry_status_data parser adapter =
     (case gst_matroska_parser_extract_data parser adapter of
        None \<Rightarrow> None
      | Some (res, parser') \<Rightarrow>
          (if res \<noteq> GST_MATROSKA_PARSER_DONE then Some (res, parser')
           else Some (res, parser'\<lparr>status := GST_MATROSKA_PARSER_STATUS_FINISHED\<rparr>)))"

definition entry_status_header ::
  "GstMatroskaParser \<Rightarrow> window \<Rightarrow> (GstMatroskaParserResult \<times> GstMatroskaParser) option" where
  "entry_status_header parser adapter =
     (case gst_matroska_parser_check_id parser (ucast GST_EBML_ID_HEADER) 4 adapter of
        None \<Rightarrow> None
      | Some res \<Rightarrow>
          (if res \<noteq> GST_MATROSKA_PARSER_OK then Some (res, parser)
           else entry_status_data
                  (parser\<lparr>status := GST_MATROSKA_PARSER_STATUS_DATA\<rparr>) adapter))"

definition entry_status_init ::
  "GstMatroskaParser \<Rightarrow> window \<Rightarrow> (GstMatroskaParserResult \<times> GstMatroskaParser) option" where
  "entry_status_init parser adapter =
     entry_status_header
       ((gst_matroska_parser_init parser)\<lparr>status := GST_MATROSKA_PARSER_STATUS_HEADER\<rparr>)
       adapter"

definition gst_matroska_parser_entry ::
  "GstMatroskaParser option \<Rightarrow> window option \<Rightarrow>
   (GstMatroskaParserResult \<times> GstMatroskaParser option) option" where
  "gst_matroska_parser_entry parser adapter =
     (case (parser, adapter) of
        (Some p, Some a) \<Rightarrow>
          map_option (\<lambda>(res, p'). (res, Some p'))
            (case status p of
               GST_MATROSKA_PARSER_STATUS_INIT \<Rightarrow> entry_status_init p a
             | GST_MATROSKA_PARSER_STATUS_HEADER \<Rightarrow> entry_status_header p a
             | GST_MATROSKA_PARSER_STATUS_DATA \<Rightarrow> entry_status_data p a
             | GST_MATROSKA_PARSER_STATUS_FINISHED \<Rightarrow> Some (GST_MATROSKA_PARSER_OK, p))
      | _ \<Rightarrow> Some (GST_MATROSKA_PARSER_NOT_SUPPORTED, parser))"

section \<open>Iterations of one invocation\<close>

text \<open>
  The values of \<open>parser\<close>, \<open>offset\<close>, \<open>len\<close>, \<open>embl_info\<close> and \<open>entry\<close> at the head of
  an iteration of the loop, and the heads that the loop comes to from a given one: each
  step is an iteration that neither returns nor faults.
\<close>

type_synonym loop_state =
  "GstMatroskaParser \<times> guint64 \<times> guint64 \<times> GstMatroskaEbmlInfo \<times> nat option"

inductive loop_reaches :: "window \<Rightarrow> loop_state \<Rightarrow> loop_state \<Rightarrow> bool"
  for p_buf :: window where
  here: "loop_reaches p_buf s s"
| step: "loop_reaches p_buf s (parser, off, n, embl_info, entry) \<Longrightarrow>
         extract_data_iter parser p_buf off n embl_info entry =
           Some (Iter_Continue parser' off' n' embl_info' entry') \<Longrightarrow>
         loop_reaches p_buf s (parser', off', n', embl_info', entry')"

code_pred loop_reaches .

text \<open>
  At a head of the loop the header reader decodes a header with the given id (its result
  is not 0), and, more than that, the iteration passes the test on \<open>consume\<close> and enters
  the \<open>switch\<close> with that id.
\<close>

definition reads_header :: "window \<Rightarrow> loop_state \<Rightarrow> guint32 \<Rightarrow> bool" where
  "reads_header p_buf s ident =
     (case s of (parser, off, n, embl_info, entry) \<Rightarrow>
        (case gst_matroska_read_one_ebml_info (drop (unat off) p_buf) n embl_info of
           None \<Rightarrow> False
         | Some (c0, embl_info') \<Rightarrow> c0 \<noteq> 0 \<and> ebml_id embl_info' = ident))"

definition dispatches :: "window \<Rightarrow> loop_state \<Rightarrow> guint32 \<Rightarrow> bool" where
  "dispatches p_buf s ident =
     (case s of (parser, off, n, embl_info, entry) \<Rightarrow>
        (case gst_matroska_read_one_ebml_info (drop (unat off) p_buf) n embl_info of
           None \<Rightarrow> False
         | Some (c0, embl_info') \<Rightarrow>
             adjust_consume embl_info' c0 \<noteq> 0 \<and> \<not> n < adjust_consume embl_info' c0 \<and>
             ebml_id embl_info' = ident))"

text \<open>
  The head at which an invocation of the entry point enters the loop: none for a finished
  parser and none when the check of the EBML header id does not answer
  \<open>GST_MATROSKA_PARSER_OK\<close>.
\<close>

definition loop_entry_state :: "GstMatroskaParser \<Rightarrow> window \<Rightarrow> loop_state" where
  "loop_entry_state parser adapter =
     (parser, offset parser, of_nat (length adapter), uninitialised_info, None)"

definition loop_start_after_check :: "GstMatroskaParser \<Rightarrow> window \<Rightarrow> loop_state option" where
  "loop_start_after_check parser adapter =
     (if gst_matroska_parser_check_id parser (ucast GST_EBML_ID_HEADER) 4 adapter =
         Some GST_MATROSKA_PARSER_OK
      then Some (loop_entry_state
                   (parser\<lparr>status := GST_MATROSKA_PARSER_STATUS_DATA\<rparr>) adapter)
      else None)"

definition entry_loop_start :: "GstMatroskaParser \<Rightarrow> window \<Rightarrow> loop_state option" where
  "entry_loop_start parser adapter =
     (case status parser of
        GST_MATROSKA_PARSER_STATUS_INIT \<Rightarrow>
          loop_start_after_check
            ((gst_matroska_parser_init parser)\<lparr>status := GST_MATROSKA_PARSER_STATUS_HEADER\<rparr>)
            adapter
      | GST_MATROSKA_PARSER_STATUS_HEADER \<Rightarrow> loop_start_after_check parser adapter
      | GST_MATROSKA_PARSER_STATUS_DATA \<Rightarrow> Some (loop_entry_state parser adapter)
      | GST_MATROSKA_PARSER_STATUS_FINISHED \<Rightarrow> None)"

text \<open>The heads of the loop that one invocation of the entry point comes to.\<close>

definition invocation_state :: "GstMatroskaParser \<Rightarrow> window \<Rightarrow> loop_state \<Rightarrow> bool" where
  "invocation_state parser adapter s =
     (case entry_loop_start parser adapter of
        None \<Rightarrow> False
      | Some s0 \<Rightarrow> loop_reaches adapter s0 s)"

section \<open>Callers\<close>

text \<open>
  A caller that invokes the entry point once per window on the same parser, whatever the
  result was; a fault in one call ends the run. Feeding a stream byte by byte shows the
  adapter with one more byte at each call and never flushes it.
\<close>

fun feed_windows :: "GstMatroskaParser \<Rightarrow> window list \<Rightarrow> GstMatroskaParser option" where
  "feed_windows parser [] = Some parser"
| "feed_windows parser (w # ws) =
     (case gst_matroska_parser_entry (Some parser) (Some w) of
        Some (res, Some parser') \<Rightarrow> feed_windows parser' ws
      | _ \<Rightarrow> None)"

definition byte_by_byte :: "window \<Rightarrow> window list" where
  "byte_by_byte stream = map (\<lambda>k. take k stream) [1..<Suc (length stream)]"

section \<open>Test data\<close>

text \<open>
  A complete metadata prefix: EBML header (size 0), Segment of unknown length, SegmentInfo
  with TimecodeScale 1000000, Cues with two cue points (time 0, track 1, position 0 and
  time 5000000000, track 1, position 4096), and the start of a Cluster.
\<close>

definition scenario :: window where
  "scenario =
     [0x1A, 0x45, 0xDF, 0xA3, 0x80,
      0x18, 0x53, 0x80, 0x67, 0xFF,
      0x15, 0x49, 0xA9, 0x66, 0x87,
      0x2A, 0xD7, 0xB1, 0x83, 0x0F, 0x42, 0x40,
      0x1C, 0x53, 0xBB, 0x6B, 0x9F,
      0xBB, 0x8B, 0xB3, 0x81, 0x00, 0xB7, 0x86, 0xF7, 0x81, 0x01, 0xF1, 0x81, 0x00,
      0xBB, 0x90, 0xB3, 0x85, 0x01, 0x2A, 0x05, 0xF2, 0x00,
      0xB7, 0x87, 0xF7, 0x81, 0x01, 0xF1, 0x82, 0x10, 0x00,
      0x1F, 0x43, 0xB6, 0x75, 0xFF, 0x00]"

text \<open>The parser after one call of the entry point on \<open>scenario\<close>.\<close>

definition scenario_parsed :: GstMatroskaParser where
  "scenario_parsed =
     \<lparr>len = 58, segment_offset = 5, segment_head_offset = 0, time_scale = 1000000,
      duration = 0, offset = 58, consume = 58, cue_point_num = 2,
      array = Some [\<lparr>cue_time = 0, track = 1, cluster_pos = 0\<rparr>,
                    \<lparr>cue_time = 5000000000, track = 1, cluster_pos = 4096\<rparr>],
      status = GST_MATROSKA_PARSER_STATUS_FINISHED, is_discard_ebml_header = False,
      total_length = 0\<rparr>"

text \<open>A one-byte id followed by the one-byte size field 0xFF, the reserved value.\<close>

definition size_unknown :: window where
  "size_unknown = [0xEC, 0xFF, 0x00]"

text \<open>An EBML header element of size 0, and the parser that has consumed it.\<close>

definition header_only :: window where
  "header_only = [0x1A, 0x45, 0xDF, 0xA3, 0x80]"

definition after_header :: GstMatroskaParser where
  "after_header =
     zero_parser\<lparr>status := GST_MATROSKA_PARSER_STATUS_DATA, offset := 5, consume := 5\<rparr>"

text \<open>A CueTime element (value 7) directly after the EBML header, outside any CuePoint.\<close>

definition stray_cue_time :: window where
  "stray_cue_time = header_only @ [0xB3, 0x81, 0x07, 0x00]"


text \<open>
  After the EBML header: an id field that starts with the byte 0x00, and an element whose
  size field starts with 0x00.
\<close>

definition zero_id :: window where
  "zero_id = header_only @ [0x00, 0x00]"

definition zero_size :: window where
  "zero_size = header_only @ [0xEC, 0x00, 0x00]"

text \<open>
  An EBML header with one byte of payload and a Void element of five bytes; then the same
  stream continued by a second EBML header and the start of a Cluster.
\<close>

definition void_stream :: window where
  "void_stream =
     [0x1A, 0x45, 0xDF, 0xA3, 0x81, 0x00, 0xEC, 0x85, 0x00, 0x00, 0x00, 0x00, 0x00]"

definition restart_stream :: window where
  "restart_stream =
     void_stream @ [0x1A, 0x45, 0xDF, 0xA3, 0x80, 0x1F, 0x43, 0xB6, 0x75, 0x80, 0x00]"

text \<open>
  Headers with the id 0xEC and a size field of two bytes, holding the reserved value
  0x3FFF and the value 5, and one with a size field of eight bytes holding the reserved
  value.
\<close>

definition reserved_two :: window where
  "reserved_two = [0xEC, 0x7F, 0xFF, 0x00]"

definition literal_two :: window where
  "literal_two = [0xEC, 0x40, 0x05, 0x00]"

definition reserved_eight :: window where
  "reserved_eight = [0xEC, 0x01, 0xFF, 0xFF, 0xFF, 0xFF, 0xFF, 0xFF, 0xFF, 0x00]"

text \<open>The parser that has consumed \<open>void_stream\<close>.\<close>

definition restart_parser :: GstMatroskaParser where
  "restart_parser =
     zero_parser\<lparr>status := GST_MATROSKA_PARSER_STATUS_DATA, offset := 13, consume := 13\<rparr>"

section \<open>Properties of the codec\<close>

lemmas matroska_ids =
  GST_EBML_ID_HEADER_def GST_MATROSKA_ID_SEGMENT_def GST_MATROSKA_ID_CLUSTER_def
  GST_MATROSKA_ID_SEEKHEAD_def GST_MATROSKA_ID_SEGMENTINFO_def GST_MATROSKA_ID_CUES_def
  GST_MATROSKA_ID_TIMECODESCALE_def GST_MATROSKA_ID_DURATION_def
  GST_MATROSKA_ID_POINTENTRY_def GST_MATROSKA_ID_CUETIME_def
  GST_MATROSKA_ID_CUETRACKPOSITION_def GST_MATROSKA_ID_CUETRACK_def
  GST_MATROSKA_ID_CUECLUSTERPOSITION_def

lemma scan_test:
  assumes "i < 8"
  shows "(d AND drop_bit i (0x80 :: guint8) \<noteq> 0) = bit d (7 - i)"
proof -
  have "(0x80 :: guint8) = 2 ^ 7" by simp
  then have "drop_bit i (0x80 :: guint8) = 2 ^ (7 - i)"
    using assms by (simp only: drop_bit_exp_eq) simp
  then show ?thesis
    by (simp add: and_exp_eq_0_iff_not_bit)
qed

lemma read_len_scan_spec:
  assumes "i \<le> 8" and "\<forall>k<i. \<not> bit d (7 - k)"
  shows "read_len_scan d i \<le> 8 \<and> (\<forall>k < read_len_scan d i. \<not> bit d (7 - k)) \<and>
         (read_len_scan d i < 8 \<longrightarrow> bit d (7 - read_len_scan d i))"
  using assms
proof (induction d i rule: read_len_scan.induct)
  case (1 d i)
  show ?case
  proof (cases "i < 8")
    case False
    with "1.prems" show ?thesis
      by (subst (1 2 3 4) read_len_scan.simps) simp
  next
    case True
    show ?thesis
    proof (cases "bit d (7 - i)")
      case True
      with \<open>i < 8\<close> "1.prems" show ?thesis
        by (subst (1 2 3 4) read_len_scan.simps) (simp add: scan_test)
    next
      case False
      with \<open>i < 8\<close> "1.prems" have "\<forall>k<i + 1. \<not> bit d (7 - k)"
        by (auto simp: less_Suc_eq)
      with "1.IH" \<open>i < 8\<close> False have
        "read_len_scan d (i + 1) \<le> 8 \<and>
         (\<forall>k < read_len_scan d (i + 1). \<not> bit d (7 - k)) \<and>
         (read_len_scan d (i + 1) < 8 \<longrightarrow> bit d (7 - read_len_scan d (i + 1)))"
        by (simp add: scan_test)
      moreover have "read_len_scan d i = read_len_scan d (i + 1)"
        using \<open>i < 8\<close> False by (subst read_len_scan.simps) (simp add: scan_test)
      ultimately show ?thesis by simp
    qed
  qed
qed

lemma byte_zero_bits: "(\<forall>k<8. \<not> bit (d :: guint8) (7 - k)) \<Longrightarrow> d = 0"
proof (rule bit_eqI)
  fix n
  assume a: "\<forall>k<8. \<not> bit d (7 - k)" and "possible_bit TYPE(guint8) n"
  then have "n < 8" by (simp add: possible_bit_def)
  then have "7 - (7 - n) = n" "7 - n < 8" by arith+
  with a have "\<not> bit d n" by metis
  then show "bit d n = bit (0 :: guint8) n" by simp
qed

lemma read_len_nonzero:
  assumes "b \<noteq> 0"
  shows "1 \<le> gst_matroska_parser_read_len b \<and> gst_matroska_parser_read_len b \<le> 8 \<and>
         bit b (8 - gst_matroska_parser_read_len b) \<and>
         (\<forall>j. 8 - gst_matroska_parser_read_len b < j \<and> j < 8 \<longrightarrow> \<not> bit b j)"
proof -
  define r where "r = read_len_scan b 0"
  have spec: "r \<le> 8" "\<forall>k<r. \<not> bit b (7 - k)" "r < 8 \<longrightarrow> bit b (7 - r)"
    using read_len_scan_spec [of 0 b] by (simp_all add: r_def)
  have "r \<noteq> 8"
    using spec(2) byte_zero_bits [of b] assms by auto
  with spec(1) have r7: "r < 8" by simp
  have upper: "\<not> bit b j" if "7 - r < j" "j < 8" for j
  proof -
    from that r7 have "7 - j < r" "7 - (7 - j) = j" by arith+
    with spec(2) show ?thesis by metis
  qed
  have L: "gst_matroska_parser_read_len b = r + 1"
    by (simp add: gst_matroska_parser_read_len_def r_def)
  show ?thesis
    unfolding L using r7 spec(3) upper by simp
qed

lemma read_len_zero: "gst_matroska_parser_read_len 0 = 9"
  by code_simp

lemma read_len_range:
  "1 \<le> gst_matroska_parser_read_len b \<and> gst_matroska_parser_read_len b \<le> 9"
  using read_len_nonzero [of b] read_len_zero by (cases "b = 0") auto

lemma read_data_len_loop_eq: "read_data_len_loop p n d = read_data_loop p n d"
  by (induction p n d rule: read_data_loop.induct) simp_all

lemma marker_cleared:
  fixes b :: guint8
  assumes "n < 8" and "bit b n" and "\<forall>j. n < j \<and> j < 8 \<longrightarrow> \<not> bit b j"
  shows "(ucast b :: guint64) - push_bit n 1 = ucast (b AND mask n)"
proof -
  have "(ucast b :: guint64) - 2 ^ n = ucast b AND NOT (2 ^ n)"
    by (rule disjunctive_diff) (use assms in \<open>auto simp: bit_simps\<close>)
  also have "\<dots> = ucast (b AND mask n)"
  proof (rule bit_eqI)
    fix k
    assume "possible_bit TYPE(guint64) k"
    show "bit ((ucast b :: guint64) AND NOT (2 ^ n)) k =
          bit (ucast (b AND mask n) :: guint64) k"
      using assms bit_imp_le_length [of b k]
      by (cases "k < n"; cases "k = n") (auto simp: bit_simps)
  qed
  finally show ?thesis by simp
qed

lemma read_data_len_masks:
  assumes "b \<noteq> 0"
  shows "gst_matroska_parser_read_data_len (b # bs)
           (of_nat (gst_matroska_parser_read_len b)) =
         gst_matroska_parser_read_data
           ((b AND mask (8 - gst_matroska_parser_read_len b)) # bs)
           (int (gst_matroska_parser_read_len b))"
proof -
  define L where "L = gst_matroska_parser_read_len b"
  from read_len_nonzero [OF assms] have L: "1 \<le> L" "L \<le> 8" "bit b (8 - L)"
    "\<forall>j. 8 - L < j \<and> j < 8 \<longrightarrow> \<not> bit b j"
    by (simp_all add: L_def)
  then obtain n where n: "L = Suc n" by (cases L) auto
  have uL: "unat (of_nat L :: guint64) = L"
    using L by (simp add: unat_of_nat)
  have nz: "(of_nat L :: guint64) \<noteq> 0" "\<not> (of_nat L :: guint64) > 8"
    using L uL by (auto simp: word_less_nat_alt unat_0_iff [symmetric])
  have clr: "(ucast b :: guint64) - push_bit (8 - L) 1 = ucast (b AND mask (8 - L))"
    using L by (intro marker_cleared) auto
  have lhs: "gst_matroska_parser_read_data_len (b # bs) (of_nat L) =
      read_data_len_loop bs (L - 1) (ucast b - push_bit (8 - L) 1)"
    using nz by (simp add: gst_matroska_parser_read_data_len_def uL)
  have rhs: "gst_matroska_parser_read_data ((b AND mask (8 - L)) # bs) (int L) =
      read_data_loop ((b AND mask (8 - L)) # bs) L 0"
    using L by (simp add: gst_matroska_parser_read_data_def)
  have "read_data_loop ((b AND mask (8 - L)) # bs) L 0 =
      read_data_loop bs (L - 1) (ucast (b AND mask (8 - L)))"
    unfolding n by simp
  with lhs rhs clr show ?thesis
    unfolding L_def [symmetric] by (simp add: read_data_len_loop_eq)
qed

text \<open>
  Claim C5. For a byte with at least one bit set, \<open>gst_matroska_parser_read_len\<close> returns
  a length in 1..8, the 1-indexed position of the first set bit counted from bit 7 down:
  bit \<open>8 - length\<close> is set and every higher bit is clear. For the byte 0x00 the result is
  9, which is no value in 1..8: it is the failure signal that the header reader tests with
  \<open>len > 8\<close> and answers by returning 0.
\<close>

theorem read_len_first_set_bit:
  "(b \<noteq> 0 \<longrightarrow>
      1 \<le> gst_matroska_parser_read_len b \<and> gst_matroska_parser_read_len b \<le> 8 \<and>
      bit b (8 - gst_matroska_parser_read_len b) \<and>
      (\<forall>j. 8 - gst_matroska_parser_read_len b < j \<and> j < 8 \<longrightarrow> \<not> bit b j)) \<and>
   gst_matroska_parser_read_len 0 = 9 \<and>
   gst_matroska_read_one_ebml_info (0 # bs) sz p_info = Some (0, p_info)"
proof -
  have "gst_matroska_read_one_ebml_info (0 # bs) sz p_info = Some (0, p_info)"
    by (simp add: gst_matroska_read_one_ebml_info_def read_len_zero)
  then show ?thesis
    using read_len_nonzero [of b] read_len_zero by blast
qed

theorem read_len_first_set_bit_witness:
  "(0x1A :: guint8) \<noteq> 0 \<and>
   gst_matroska_parser_read_len 0x1A = 4 \<and>
   bit (0x1A :: guint8) (8 - gst_matroska_parser_read_len 0x1A) \<and>
   \<not> bit (0x1A :: guint8) 5 \<and> \<not> bit (0x1A :: guint8) 6 \<and> \<not> bit (0x1A :: guint8) 7 \<and>
   gst_matroska_parser_read_len 0 = 9 \<and>
   gst_matroska_read_one_ebml_info [0, 0x45] 2 uninitialised_info =
     Some (0, uninitialised_info)"
proof -
  have four: "gst_matroska_parser_read_len 0x1A = 4"
    by code_simp
  have "(0x1A :: guint8) \<noteq> 0"
    by simp
  with read_len_first_set_bit [of "0x1A" "[0x45]" 2 uninitialised_info] four
  show ?thesis by simp
qed

text \<open>
  Claim C6, as amended. When the leading byte is not zero and \<open>length\<close> is the length
  that the leading byte encodes, \<open>gst_matroska_parser_read_data_len\<close> (decodeMasked)
  equals \<open>gst_matroska_parser_read_data\<close> (decodeRaw) on the same bytes with the top
  \<open>length\<close> bits of the leading byte cleared; both read past the window in the same
  cases.
\<close>

theorem read_data_len_clears_marker:
  assumes "b \<noteq> 0" and "L = gst_matroska_parser_read_len b"
  shows "gst_matroska_parser_read_data_len (b # bs) (of_nat L) =
         gst_matroska_parser_read_data ((b AND mask (8 - L)) # bs) (int L)"
  using read_data_len_masks [OF assms(1), of bs] assms(2) by simp

theorem read_data_len_clears_marker_witness:
  "(0x42 :: guint8) \<noteq> 0 \<and> (2 :: nat) = gst_matroska_parser_read_len 0x42 \<and>
   gst_matroska_parser_read_data_len [0x42, 0x05] (of_nat 2) = Some 0x0205 \<and>
   gst_matroska_parser_read_data [0x42 AND mask (8 - 2), 0x05] (int 2) = Some 0x0205"
proof -
  have a: "(0x42 :: guint8) \<noteq> 0"
    by simp
  have b: "(2 :: nat) = gst_matroska_parser_read_len 0x42"
    by code_simp
  have c: "gst_matroska_parser_read_data [0x42 AND mask (8 - 2), 0x05] (int 2) = Some 0x0205"
    by code_simp
  from read_data_len_clears_marker [OF a b, of "[0x05]"] a b c show ?thesis
    by simp
qed

text \<open>
  The claim as stated, for every byte sequence and every length in 1..8, fails where the
  length is not the one the leading byte encodes: for the bytes FF 00 and length 2 the
  source subtracts 0x40 from 0xFF and yields 0xBF00, while clearing the top two bits
  yields 0x3F00.
\<close>

theorem read_data_len_not_mask:
  "gst_matroska_parser_read_data_len [0xFF, 0x00] 2 = Some 0xBF00 \<and>
   gst_matroska_parser_read_data [0xFF AND mask (8 - 2), 0x00] 2 = Some 0x3F00"
  by code_simp

section \<open>Properties of the header reader\<close>

lemma read_one_success:
  assumes "gst_matroska_read_one_ebml_info buf sz p_info = Some (c, info')" and "c \<noteq> 0"
  defines "k \<equiv> gst_matroska_parser_read_len (hd buf)"
  defines "p8 \<equiv> drop k buf"
  defines "m \<equiv> gst_matroska_parser_read_len (hd p8)"
  defines "s \<equiv> the (gst_matroska_parser_read_data_len p8 (of_nat m))"
  shows "buf \<noteq> [] \<and> sz \<noteq> 0 \<and> k \<le> 8 \<and> \<not> sz \<le> of_nat k
    \<and> p8 \<noteq> [] \<and> m \<le> 8 \<and> \<not> sz - of_nat k \<le> of_nat m
    \<and> gst_matroska_parser_read_data buf (int k) \<noteq> None
    \<and> ebml_id info' = ucast (the (gst_matroska_parser_read_data buf (int k)))
    \<and> gst_matroska_parser_read_data_len p8 (of_nat m) \<noteq> None
    \<and> ebml_size info' = (if unknown_length ! (m - 1) = s then 0x7FFFFFFFFFFFFFFF else s)
    \<and> data_buf info' = drop m p8
    \<and> data_offset info' = of_nat k + of_nat m
    \<and> c = data_offset info' + ebml_size info'"
  using assms(1,2)
  unfolding gst_matroska_read_one_ebml_info_def Let_def k_def p8_def m_def s_def
  by (auto simp: not_less simp del: drop_drop split: if_splits list.splits option.splits)

lemma read_one_offset:
  assumes "gst_matroska_read_one_ebml_info buf sz p_info = Some (c, info')" and "c \<noteq> 0"
  shows "data_offset info' \<noteq> 0 \<and> data_offset info' < sz"
proof -
  define k where "k = gst_matroska_parser_read_len (hd buf)"
  define m where "m = gst_matroska_parser_read_len (hd (drop k buf))"
  from read_one_success [OF assms] have k8: "k \<le> 8" and m8: "m \<le> 8"
    and lt1: "\<not> sz \<le> of_nat k" and lt2: "\<not> sz - of_nat k \<le> of_nat m"
    and doff: "data_offset info' = of_nat k + of_nat m"
    unfolding k_def m_def by blast+
  have km: "1 \<le> k" "1 \<le> m"
    using read_len_range by (simp_all add: k_def m_def)
  have un: "unat (of_nat k :: guint64) = k" "unat (of_nat m :: guint64) = m"
    using k8 m8 by (simp_all add: unat_of_nat)
  from lt1 have a: "k < unat sz"
    by (simp add: word_le_nat_alt un not_le)
  then have "unat (sz - of_nat k) = unat sz - k"
    by (simp add: unat_sub word_le_nat_alt un)
  with lt2 have b: "m < unat sz - k"
    by (simp add: word_le_nat_alt un not_le)
  have unm: "unat (of_nat k + of_nat m :: guint64) = k + m"
    using k8 m8 by (simp add: unat_word_ariths un)
  have "unat (data_offset info') \<noteq> 0 \<and> unat (data_offset info') < unat sz"
    using a b km unfolding doff unm by arith
  then show ?thesis
    by (simp add: word_less_nat_alt unat_0_iff)
qed

lemma read_data_loop_in_window:
  "n \<le> length p \<Longrightarrow> \<exists>v. read_data_loop p n d = Some v"
  by (induction p n d rule: read_data_loop.induct) simp_all

lemma read_one_bad_id:
  assumes "gst_matroska_parser_read_len b > 8"
  shows "gst_matroska_read_one_ebml_info (b # bs) n p_info = Some (0, p_info)"
  using assms by (simp add: gst_matroska_read_one_ebml_info_def Let_def)

lemma read_one_bad_size:
  assumes k: "k = gst_matroska_parser_read_len b" "k \<le> 8"
    and n: "\<not> n \<le> of_nat k"
    and inw: "k < length (b # bs)"
    and bad: "gst_matroska_parser_read_len ((b # bs) ! k) > 8"
  shows "\<exists>p_info'. gst_matroska_read_one_ebml_info (b # bs) n p_info = Some (0, p_info')"
proof -
  have k1: "1 \<le> k"
    using read_len_range [of b] k by simp
  from inw obtain v where v: "read_data_loop (b # bs) k 0 = Some v"
    using read_data_loop_in_window [of k "b # bs" 0] by auto
  have rd: "gst_matroska_parser_read_data (b # bs) (int k) = Some v"
    using k1 k v by (simp add: gst_matroska_parser_read_data_def)
  from inw have dr: "drop k (b # bs) = ((b # bs) ! k) # drop (Suc k) (b # bs)"
    by (simp only: Cons_nth_drop_Suc)
  from n have nz: "n \<noteq> 0" by auto
  show ?thesis
    using k n nz bad
    by (simp add: gst_matroska_read_one_ebml_info_def Let_def rd dr k(1) [symmetric]
        del: drop_Suc_Cons)
qed

lemma unknown_length_table:
  "list_all (\<lambda>L. unknown_length ! (L - 1) = mask (7 * L)) [1, 2, 3, 4, 5, 6, 7, 8]"
  by code_simp

lemma unknown_length_mask:
  assumes "1 \<le> L" and "L \<le> 8"
  shows "unknown_length ! (L - 1) = mask (7 * L)"
proof -
  have "\<forall>L \<in> set [1, 2, 3, 4, 5, 6, 7, 8]. unknown_length ! (L - 1) = mask (7 * L)"
    using unknown_length_table by (simp only: list_all_iff)
  moreover from assms have "L \<in> set [1, 2, 3, 4, 5, 6, 7, 8]"
    by (simp del: One_nat_def) arith
  ultimately show ?thesis by blast
qed

lemma mask_not_sentinel:
  assumes "L \<le> 8"
  shows "mask (7 * L) \<noteq> (0x7FFFFFFFFFFFFFFF :: guint64)"
proof
  assume "mask (7 * L) = (0x7FFFFFFFFFFFFFFF :: guint64)"
  then have "bit (mask (7 * L) :: guint64) 62 = bit (mask 63 :: guint64) 62"
    by (simp add: mask_eq_exp_minus_1)
  then show False
    using assms by (simp add: bit_simps)
qed

lemma read_data_loop_bound:
  assumes "read_data_loop p n d = Some v" and "take_bit k d = d"
  shows "take_bit (k + 8 * n) v = v"
  using assms
proof (induction p n d arbitrary: k rule: read_data_loop.induct)
  case (1 p d)
  then show ?case by simp
next
  case (2 n d)
  then show ?case by simp
next
  case (3 b p n d)
  have d: "bit d i \<Longrightarrow> i < k" for i
    using "3.prems"(2) by (metis bit_take_bit_iff)
  have "take_bit (k + 8) (push_bit 8 d OR ucast b) = push_bit 8 d OR (ucast b :: guint64)"
  proof (rule bit_eqI)
    fix i
    assume "possible_bit TYPE(guint64) i"
    show "bit (take_bit (k + 8) (push_bit 8 d OR ucast b :: guint64)) i =
          bit (push_bit 8 d OR ucast b :: guint64) i"
      using d [of "i - 8"] bit_imp_le_length [of b i]
      by (auto simp: bit_simps)
  qed
  from "3.IH" [OF _ this] "3.prems"(1) have "take_bit (k + 8 + 8 * n) v = v"
    by simp
  then show ?case
    by (simp add: add.assoc)
qed

lemma masked_size_bound:
  assumes "1 \<le> L" and "L \<le> 8"
    and "gst_matroska_parser_read_data ((b AND mask (8 - L)) # bs) (int L) = Some v"
  shows "take_bit (7 * L) v = v"
proof -
  from assms(1) obtain n where n: "L = Suc n" by (cases L) auto
  from assms have "read_data_loop ((b AND mask (8 - L)) # bs) L 0 = Some v"
    by (simp add: gst_matroska_parser_read_data_def)
  then have "read_data_loop bs n (ucast (b AND mask (8 - L))) = Some v"
    unfolding n by simp
  moreover have "take_bit (8 - L) (ucast (b AND mask (8 - L)) :: guint64) =
      ucast (b AND mask (8 - L))"
    by (rule bit_eqI) (auto simp: bit_simps)
  ultimately have "take_bit (8 - L + 8 * n) v = v"
    by (rule read_data_loop_bound)
  moreover have "8 - L + 8 * n = 7 * L"
    using assms(2) by (simp add: n)
  ultimately show ?thesis by simp
qed

lemma take_bit_le_mask:
  fixes v :: guint64
  assumes "take_bit k v = v"
  shows "v \<le> mask k"
  using assms by (metis take_bit_eq_mask word_and_le1)

lemma read_one_decodes_cons:
  assumes k: "k = gst_matroska_parser_read_len b" "k \<le> 8" "\<not> sz \<le> of_nat k"
    and idv: "gst_matroska_parser_read_data (b # bs) (int k) = Some idv"
    and p8: "drop k (b # bs) = b' # bs'"
    and L: "L = gst_matroska_parser_read_len b'" "L \<le> 8" "\<not> sz - of_nat k \<le> of_nat L"
    and s: "gst_matroska_parser_read_data_len (b' # bs') (of_nat L) = Some s"
  shows "gst_matroska_read_one_ebml_info (b # bs) sz p_info =
           Some (of_nat k + of_nat L +
                   (if unknown_length ! (L - 1) = s then 0x7FFFFFFFFFFFFFFF else s),
                 p_info\<lparr>ebml_id := ucast idv,
                         ebml_size :=
                           (if unknown_length ! (L - 1) = s then 0x7FFFFFFFFFFFFFFF else s),
                         data_buf := drop L (b' # bs'),
                         data_offset := of_nat k + of_nat L\<rparr>)"
proof -
  from k(3) have sz0: "sz \<noteq> 0"
    by auto
  have second: "(case b' # bs' of [] \<Rightarrow> None | x # xs \<Rightarrow> f x) = f b'" for f :: "guint8 \<Rightarrow> 'a option"
    by simp
  show ?thesis
    unfolding gst_matroska_read_one_ebml_info_def Let_def list.case k(1) [symmetric]
    using sz0 k(2,3) L(2,3) s
    by (simp only: idv p8 list.case option.case L(1) [symmetric] if_False not_less [symmetric]
        simp_thms)
qed



text \<open>
  Claim C4. Take a header whose id field and size field both start with a non-zero byte
  and lie inside the window and inside the size \<open>sz\<close> that the caller passes; \<open>L\<close> is
  the encoded length of the size field. Then \<open>L\<close> is in 1..8 and the entry of
  \<open>unknown_length\<close> for \<open>L\<close> is the value with all \<open>7 * L\<close> data bits set (0x7F,
  0x3FFF, ... for 1..8), which differs from the sentinel. The header reader succeeds; with
  \<open>v\<close> the masked value of the size field, which is at most that reserved value, the size
  it reports is the sentinel 0x7FFFFFFFFFFFFFFF when \<open>v\<close> is the reserved value and \<open>v\<close>
  itself otherwise.
\<close>

theorem size_field_unknown_length:
  fixes buf :: window
  defines "k \<equiv> gst_matroska_parser_read_len (hd buf)"
  defines "p8 \<equiv> drop k buf"
  defines "L \<equiv> gst_matroska_parser_read_len (hd p8)"
  assumes idf: "buf \<noteq> []" "hd buf \<noteq> 0" "\<not> sz \<le> of_nat k"
    and szf: "k < length buf" "hd p8 \<noteq> 0" "\<not> sz - of_nat k \<le> of_nat L"
      "k + L \<le> length buf"
  shows "1 \<le> L \<and> L \<le> 8 \<and>
         unknown_length ! (L - 1) = mask (7 * L) \<and>
         mask (7 * L) \<noteq> (0x7FFFFFFFFFFFFFFF :: guint64) \<and>
         (\<exists>idv v.
            gst_matroska_parser_read_data buf (int k) = Some idv \<and>
            gst_matroska_parser_read_data ((hd p8 AND mask (8 - L)) # tl p8) (int L) = Some v \<and>
            v \<le> mask (7 * L) \<and>
            gst_matroska_read_one_ebml_info buf sz p_info =
              Some (of_nat k + of_nat L +
                      (if v = mask (7 * L) then 0x7FFFFFFFFFFFFFFF else v),
                    p_info\<lparr>ebml_id := ucast idv,
                            ebml_size := (if v = mask (7 * L) then 0x7FFFFFFFFFFFFFFF else v),
                            data_buf := drop L p8,
                            data_offset := of_nat k + of_nat L\<rparr>))"
proof -
  from idf(1) obtain b bs where buf: "buf = b # bs"
    by (cases buf) auto
  from szf(1) have "p8 \<noteq> []"
    by (simp add: p8_def)
  then obtain b' bs' where p8: "p8 = b' # bs'"
    by (cases p8) auto
  have kb: "k = gst_matroska_parser_read_len b" and Lb: "L = gst_matroska_parser_read_len b'"
    by (simp_all add: k_def L_def buf p8)
  have k: "1 \<le> k" "k \<le> 8"
    using read_len_nonzero [of b] idf(2) by (simp_all add: kb buf)
  have L: "1 \<le> L" "L \<le> 8"
    using read_len_nonzero [of b'] szf(2) by (simp_all add: Lb p8)
  from szf(1) obtain idv where "read_data_loop (b # bs) k 0 = Some idv"
    using read_data_loop_in_window [of k "b # bs" 0] by (auto simp: buf)
  then have idv: "gst_matroska_parser_read_data (b # bs) (int k) = Some idv"
    using k by (simp add: gst_matroska_parser_read_data_def)
  from szf(4) have "L \<le> length p8"
    by (simp add: p8_def)
  then obtain v where "read_data_loop ((b' AND mask (8 - L)) # bs') L 0 = Some v"
    using read_data_loop_in_window [of L "(b' AND mask (8 - L)) # bs'" 0] by (auto simp: p8)
  then have v: "gst_matroska_parser_read_data ((b' AND mask (8 - L)) # bs') (int L) = Some v"
    using L by (simp add: gst_matroska_parser_read_data_def)
  have len: "gst_matroska_parser_read_data_len (b' # bs') (of_nat L) = Some v"
    using read_data_len_masks [of b' bs'] szf(2) v by (simp add: p8 Lb)
  have tab: "unknown_length ! (L - 1) = mask (7 * L)"
    by (rule unknown_length_mask [OF L])
  have sentinel: "mask (7 * L) \<noteq> (0x7FFFFFFFFFFFFFFF :: guint64)"
    by (rule mask_not_sentinel [OF L(2)])
  have bound: "v \<le> mask (7 * L)"
    by (rule take_bit_le_mask [OF masked_size_bound [OF L v]])
  have dr: "drop k (b # bs) = b' # bs'"
    using p8 by (simp add: p8_def buf)
  have "gst_matroska_read_one_ebml_info (b # bs) sz p_info =
      Some (of_nat k + of_nat L +
              (if unknown_length ! (L - 1) = v then 0x7FFFFFFFFFFFFFFF else v),
            p_info\<lparr>ebml_id := ucast idv,
                    ebml_size :=
                      (if unknown_length ! (L - 1) = v then 0x7FFFFFFFFFFFFFFF else v),
                    data_buf := drop L (b' # bs'),
                    data_offset := of_nat k + of_nat L\<rparr>)"
    by (rule read_one_decodes_cons [OF kb k(2) idf(3) idv dr Lb L(2) szf(3) len])
  then have one: "gst_matroska_read_one_ebml_info buf sz p_info =
      Some (of_nat k + of_nat L + (if v = mask (7 * L) then 0x7FFFFFFFFFFFFFFF else v),
            p_info\<lparr>ebml_id := ucast idv,
                    ebml_size := (if v = mask (7 * L) then 0x7FFFFFFFFFFFFFFF else v),
                    data_buf := drop L p8,
                    data_offset := of_nat k + of_nat L\<rparr>)"
    unfolding tab buf p8 by (simp add: eq_commute [of "mask (7 * L)"])
  from idv v have "gst_matroska_parser_read_data buf (int k) = Some idv"
    "gst_matroska_parser_read_data ((hd p8 AND mask (8 - L)) # tl p8) (int L) = Some v"
    by (simp_all add: buf p8)
  with bound one L tab sentinel show ?thesis
    by blast
qed

theorem size_field_unknown_length_witness:
  "reserved_two \<noteq> [] \<and> hd reserved_two \<noteq> 0 \<and>
   gst_matroska_parser_read_len (hd reserved_two) = 1 \<and>
   gst_matroska_parser_read_len (hd (drop 1 reserved_two)) = 2 \<and>
   hd (drop 1 reserved_two) \<noteq> 0 \<and> (1 :: nat) + 2 \<le> length reserved_two \<and>
   unknown_length ! (2 - 1) = mask (7 * 2) \<and>
   gst_matroska_parser_read_data
     ((hd (drop 1 reserved_two) AND mask (8 - 2)) # tl (drop 1 reserved_two)) (int 2) =
     Some 0x3FFF \<and>
   gst_matroska_read_one_ebml_info reserved_two 4 uninitialised_info =
     Some (0x8000000000000002,
           \<lparr>ebml_id = 0xEC, ebml_size = 0x7FFFFFFFFFFFFFFF, data_offset = 3,
              data_buf = [0]\<rparr>) \<and>
   gst_matroska_read_one_ebml_info literal_two 4 uninitialised_info =
     Some (8, \<lparr>ebml_id = 0xEC, ebml_size = 5, data_offset = 3, data_buf = [0]\<rparr>) \<and>
   gst_matroska_read_one_ebml_info size_unknown 3 uninitialised_info =
     Some (0x8000000000000001,
           \<lparr>ebml_id = 0xEC, ebml_size = 0x7FFFFFFFFFFFFFFF, data_offset = 2,
              data_buf = [0]\<rparr>) \<and>
   gst_matroska_read_one_ebml_info reserved_eight 10 uninitialised_info =
     Some (0x8000000000000008,
           \<lparr>ebml_id = 0xEC, ebml_size = 0x7FFFFFFFFFFFFFFF, data_offset = 9,
              data_buf = [0]\<rparr>)"
proof -
  have k: "gst_matroska_parser_read_len (hd reserved_two) = 1"
    by code_simp
  have L: "gst_matroska_parser_read_len (hd (drop 1 reserved_two)) = 2"
    by code_simp
  have a: "reserved_two \<noteq> []" "hd reserved_two \<noteq> 0" "hd (drop 1 reserved_two) \<noteq> 0"
    "(1 :: nat) + 2 \<le> length reserved_two" "(1 :: nat) < length reserved_two"
    by code_simp+
  have b: "\<not> (4 :: guint64) \<le> of_nat 1" "\<not> (4 :: guint64) - of_nat 1 \<le> of_nat 2"
    by (simp_all add: word_le_nat_alt)
  have v: "gst_matroska_parser_read_data
     ((hd (drop 1 reserved_two) AND mask (8 - 2)) # tl (drop 1 reserved_two)) (int 2) =
     Some 0x3FFF"
    by code_simp
  have r: "gst_matroska_read_one_ebml_info reserved_two 4 uninitialised_info =
     Some (0x8000000000000002,
           \<lparr>ebml_id = 0xEC, ebml_size = 0x7FFFFFFFFFFFFFFF, data_offset = 3,
              data_buf = [0]\<rparr>)"
    "gst_matroska_read_one_ebml_info literal_two 4 uninitialised_info =
     Some (8, \<lparr>ebml_id = 0xEC, ebml_size = 5, data_offset = 3, data_buf = [0]\<rparr>)"
    "gst_matroska_read_one_ebml_info size_unknown 3 uninitialised_info =
     Some (0x8000000000000001,
           \<lparr>ebml_id = 0xEC, ebml_size = 0x7FFFFFFFFFFFFFFF, data_offset = 2,
              data_buf = [0]\<rparr>)"
    "gst_matroska_read_one_ebml_info reserved_eight 10 uninitialised_info =
     Some (0x8000000000000008,
           \<lparr>ebml_id = 0xEC, ebml_size = 0x7FFFFFFFFFFFFFFF, data_offset = 9,
              data_buf = [0]\<rparr>)"
    by code_simp+
  have "unknown_length ! (2 - 1) = mask (7 * 2)"
    using size_field_unknown_length [of reserved_two 4 uninitialised_info] a b
    unfolding k L by simp
  with k L a v r show ?thesis
    by simp
qed

section \<open>Properties of the extraction loop\<close>

lemma adjust_consume_zero: "adjust_consume embl_info 0 = 0"
  by (simp add: adjust_consume_def)

lemma adjust_consume_leaf:
  assumes "ebml_id embl_info \<noteq> GST_MATROSKA_ID_SEGMENT"
    and "ebml_id embl_info \<noteq> GST_MATROSKA_ID_CUES"
    and "ebml_id embl_info \<noteq> GST_MATROSKA_ID_CLUSTER"
  shows "adjust_consume embl_info c = c"
  using assms by (simp add: adjust_consume_def)


lemma current_entry_none:
  assumes "array parser = None \<or> cue_point_num parser = 0"
  shows "current_entry parser entry = entry"
  using assms by (auto simp: current_entry_def split: option.splits)

lemma switch_cue_leaf_no_entry:
  assumes "ebml_id embl_info = GST_MATROSKA_ID_CUETIME \<or>
           ebml_id embl_info = GST_MATROSKA_ID_CUETRACK \<or>
           ebml_id embl_info = GST_MATROSKA_ID_CUECLUSTERPOSITION"
  shows "extract_data_switch parser embl_info c None = Some (Switch_Break parser c)"
  using assms by (auto simp: extract_data_switch_def matroska_ids)

lemma switch_return_cluster:
  assumes "extract_data_switch parser embl_info c e = Some (Switch_Return r)"
  shows "ebml_id embl_info = GST_MATROSKA_ID_CLUSTER \<and> r = GST_MATROSKA_PARSER_DONE"
  using assms unfolding extract_data_switch_def Let_def
  by (simp split: if_splits option.splits)



lemma advance_parser:
  "len (iter_parser (extract_data_advance parser off n c embl_info entry)) = len parser"
  "consume (iter_parser (extract_data_advance parser off n c embl_info entry)) = consume parser + c"
  by (simp_all add: extract_data_advance_def Let_def)

lemma switch_consume:
  assumes "extract_data_switch parser embl_info c e = Some (Switch_Break parser' c')"
  shows "c' = c \<or> c' = data_offset embl_info"
  using assms unfolding extract_data_switch_def Let_def
  by (simp split: if_splits option.splits)

lemma store_entry_consume:
  "store_entry parser i f = Some parser' \<Longrightarrow> consume parser' = consume parser"
  by (auto simp: store_entry_def split: option.splits if_splits)

lemma switch_keeps_consume:
  assumes "extract_data_switch parser embl_info c e = Some (Switch_Break parser' c')"
    and "ebml_id embl_info \<noteq> GST_EBML_ID_HEADER"
  shows "consume parser' = consume parser"
  using assms unfolding extract_data_switch_def Let_def
  by (auto split: if_splits option.splits dest: store_entry_consume)

lemma store_entry_fields:
  assumes "store_entry parser i f = Some parser'"
  shows "status parser' = status parser" and "len parser' = len parser"
  using assms by (auto simp: store_entry_def split: option.splits if_splits)

lemma switch_status:
  assumes "extract_data_switch parser embl_info c e = Some (Switch_Break parser' c')"
  shows "status parser' = status parser"
  using assms unfolding extract_data_switch_def Let_def
  by (auto split: if_splits option.splits dest: store_entry_fields(1))

lemma word_add_no_wrap:
  fixes a c n :: guint64
  assumes "c \<le> n" and "unat a + unat n < 2 ^ 64"
  shows "a \<le> a + c" and "unat (a + c) = unat a + unat c"
proof -
  from assms have "unat a + unat c < 2 ^ 64"
    by (simp add: word_le_nat_alt)
  then show "unat (a + c) = unat a + unat c"
    by (simp add: unat_add_lem [THEN iffD1])
  then show "a \<le> a + c"
    by (simp add: word_le_nat_alt)
qed



lemma iter_header:
  assumes "dispatches p_buf (parser, off, n, embl_info, entry) GST_EBML_ID_HEADER"
  shows "\<exists>c0 info' r.
           gst_matroska_read_one_ebml_info (drop (unat off) p_buf) n embl_info =
             Some (c0, info') \<and>
           extract_data_iter parser p_buf off n embl_info entry = Some r \<and>
           consume (iter_parser r) = c0"
proof -
  from assms obtain c0 info' where
    rd: "gst_matroska_read_one_ebml_info (drop (unat off) p_buf) n embl_info = Some (c0, info')"
    and chk: "adjust_consume info' c0 \<noteq> 0" "\<not> n < adjust_consume info' c0"
    and hdr: "ebml_id info' = GST_EBML_ID_HEADER"
    by (auto simp: dispatches_def split: option.splits)
  from hdr have adj: "adjust_consume info' c0 = c0"
    by (simp add: adjust_consume_def matroska_ids)
  from hdr have "extract_data_switch parser info' c0 (current_entry parser entry) =
      Some (Switch_Break (parser\<lparr>consume := 0\<rparr>) c0)"
    by (simp add: extract_data_switch_def)
  with rd chk have "extract_data_iter parser p_buf off n embl_info entry =
      Some (extract_data_advance (parser\<lparr>consume := 0\<rparr>) off n c0 info'
              (current_entry parser entry))"
    by (simp add: extract_data_iter_def adj)
  with rd show ?thesis
    by (simp add: advance_parser)
qed

text \<open>
  The heads that the loop comes to: a head reached from the successor of an iteration is
  reached from that iteration, and the loop gives the same result from every head it
  comes to.
\<close>

lemma reaches_prepend:
  assumes "loop_reaches p_buf s1 s"
    and "s1 = (parser', off', n', info', entry')"
    and "extract_data_iter parser p_buf off n embl_info entry =
         Some (Iter_Continue parser' off' n' info' entry')"
  shows "loop_reaches p_buf (parser, off, n, embl_info, entry) s"
  using assms
proof (induction rule: loop_reaches.induct)
  case (here s)
  have "loop_reaches p_buf (parser, off, n, embl_info, entry)
          (parser, off, n, embl_info, entry)"
    by (rule loop_reaches.here)
  from loop_reaches.step [OF this here(2)] here(1) show ?case
    by simp
next
  case (step s p1 off1 n1 i1 e1 p2 off2 n2 i2 e2)
  from step.IH [OF step.prems] step.hyps(2) show ?case
    by (rule loop_reaches.step)
qed


lemma iter_cases:
  assumes it: "extract_data_iter parser p_buf off n embl_info entry = Some r"
  shows "(\<exists>q. r = Iter_Return GST_MATROSKA_PARSER_OK q \<and> len q = len parser \<and>
              consume q = consume parser \<and> status q = status parser) \<or>
         (r = Iter_Return GST_MATROSKA_PARSER_DONE parser \<and>
            reads_header p_buf (parser, off, n, embl_info, entry) GST_MATROSKA_ID_CLUSTER) \<or>
         (\<exists>q. r = Iter_Return GST_MATROSKA_PARSER_DONE q \<and> len q \<noteq> 0 \<and> len q \<le> consume q \<and>
              status q = status parser) \<or>
         (\<exists>q off' n' info' entry'.
            r = Iter_Continue q off' n' info' entry' \<and> \<not> (len q \<noteq> 0 \<and> len q \<le> consume q) \<and>
            status q = status parser)"
proof -
  from it obtain c0 info1 where
    rd: "gst_matroska_read_one_ebml_info (drop (unat off) p_buf) n embl_info = Some (c0, info1)"
    by (auto simp: extract_data_iter_def split: option.splits)
  define c1 where "c1 = adjust_consume info1 c0"
  show ?thesis
  proof (cases "c1 = 0 \<or> n < c1")
    case True
    with it rd have "r = Iter_Return GST_MATROSKA_PARSER_OK
        (if off \<noteq> 0 then parser\<lparr>offset := off\<rparr> else parser)"
      by (auto simp: extract_data_iter_def c1_def)
    then show ?thesis by simp
  next
    case False
    then have c0: "c0 \<noteq> 0"
      by (auto simp: c1_def adjust_consume_def split: if_splits)
    from it rd False obtain sr where
      sw: "extract_data_switch parser info1 c1 (current_entry parser entry) = Some sr"
      by (auto simp: extract_data_iter_def c1_def Let_def split: option.splits)
    show ?thesis
    proof (cases sr)
      case (Switch_Return res)
      with it rd False sw have r: "r = Iter_Return res parser"
        by (simp add: extract_data_iter_def c1_def [symmetric])
      from switch_return_cluster sw Switch_Return have
        "ebml_id info1 = GST_MATROSKA_ID_CLUSTER" "res = GST_MATROSKA_PARSER_DONE"
        by blast+
      with rd c0 r show ?thesis
        by (simp add: reads_header_def)
    next
      case (Switch_Break q c')
      with it rd False sw have
        r: "r = extract_data_advance q off n c' info1 (current_entry parser entry)"
        by (simp add: extract_data_iter_def c1_def [symmetric])
      from sw Switch_Break have "status q = status parser"
        by (simp add: switch_status)
      then show ?thesis
        unfolding r by (simp add: extract_data_advance_def Let_def)
    qed
  qed
qed



lemma loop_answers:
  assumes "extract_data_loop parser p_buf off n embl_info entry = Some (res, q)"
  shows "res = GST_MATROSKA_PARSER_OK \<or> res = GST_MATROSKA_PARSER_DONE"
  using assms
proof (induction parser p_buf off n embl_info entry rule: extract_data_loop.induct)
  case (1 parser p_buf off n embl_info entry)
  from "1.prems" obtain r where
    it: "extract_data_iter parser p_buf off n embl_info entry = Some r"
    by (subst (asm) extract_data_loop.simps) (auto split: option.splits)
  show ?case
  proof (cases r)
    case (Iter_Return res' q')
    with "1.prems" it have "res = res'"
      by (subst (asm) extract_data_loop.simps) simp
    with iter_cases [OF it] Iter_Return show ?thesis
      by auto
  next
    case (Iter_Continue q' off' n' info' entry')
    with "1.prems" it have "extract_data_loop q' p_buf off' n' info' entry' = Some (res, q)"
      by (subst (asm) extract_data_loop.simps) simp
    from "1.IH" [OF it Iter_Continue this] show ?thesis .
  qed
qed

lemma iter_consume:
  assumes it: "extract_data_iter parser p_buf off n embl_info entry = Some r"
    and b1: "unat (consume parser) + unat n < 2 ^ 64"
  shows "dispatches p_buf (parser, off, n, embl_info, entry) GST_EBML_ID_HEADER \<or>
         (case r of
            Iter_Return res q \<Rightarrow> consume parser \<le> consume q
          | Iter_Continue q off' n' info' entry' \<Rightarrow>
              consume parser \<le> consume q \<and> unat (consume q) + unat n' < 2 ^ 64)"
proof -
  from it obtain c0 info1 where
    rd: "gst_matroska_read_one_ebml_info (drop (unat off) p_buf) n embl_info = Some (c0, info1)"
    by (auto simp: extract_data_iter_def split: option.splits)
  define c1 where "c1 = adjust_consume info1 c0"
  show ?thesis
  proof (cases "c1 = 0 \<or> n < c1")
    case True
    with it rd have "r = Iter_Return GST_MATROSKA_PARSER_OK
        (if off \<noteq> 0 then parser\<lparr>offset := off\<rparr> else parser)"
      by (auto simp: extract_data_iter_def c1_def)
    then show ?thesis by simp
  next
    case False
    then have c1: "c1 \<noteq> 0" "c1 \<le> n" by auto
    then have c0: "c0 \<noteq> 0"
      by (auto simp: c1_def adjust_consume_def split: if_splits)
    from it rd False obtain sr where
      sw: "extract_data_switch parser info1 c1 (current_entry parser entry) = Some sr"
      by (auto simp: extract_data_iter_def c1_def Let_def split: option.splits)
    show ?thesis
    proof (cases sr)
      case (Switch_Return res)
      with it rd False sw have "r = Iter_Return res parser"
        by (simp add: extract_data_iter_def c1_def [symmetric])
      then show ?thesis by simp
    next
      case (Switch_Break q c')
      with it rd False sw have
        r: "r = extract_data_advance q off n c' info1 (current_entry parser entry)"
        by (simp add: extract_data_iter_def c1_def [symmetric])
      show ?thesis
      proof (cases "ebml_id info1 = GST_EBML_ID_HEADER")
        case True
        with rd False show ?thesis
          by (simp add: dispatches_def c1_def)
      next
        case False
        from sw Switch_Break False have q: "consume q = consume parser"
          by (simp add: switch_keeps_consume)
        from sw Switch_Break have "c' = c1 \<or> c' = data_offset info1"
          by (simp add: switch_consume)
        with c1 read_one_offset [OF rd c0] have c': "c' \<le> n" "c' \<noteq> 0"
          by auto
        note cons = word_add_no_wrap [OF c'(1) b1]
        have sub: "unat (n - c') = unat n - unat c'"
          using c'(1) by (simp add: unat_sub)
        have le: "unat c' \<le> unat n"
          using c'(1) by (simp add: word_le_nat_alt)
        have "case extract_data_advance q off n c' info1 (current_entry parser entry) of
            Iter_Return res q' \<Rightarrow> consume parser \<le> consume q'
          | Iter_Continue q' off' n' info' entry' \<Rightarrow>
              consume parser \<le> consume q' \<and> unat (consume q') + unat n' < 2 ^ 64"
          using cons sub le b1
          by (simp add: extract_data_advance_def Let_def q)
        then show ?thesis
          by (simp add: r)
      qed
    qed
  qed
qed

lemma loop_consume:
  assumes "extract_data_loop parser p_buf off n embl_info entry = Some (res, q)"
    and "unat (consume parser) + unat n < 2 ^ 64"
  shows "consume parser \<le> consume q \<or>
         (\<exists>s. loop_reaches p_buf (parser, off, n, embl_info, entry) s \<and>
              dispatches p_buf s GST_EBML_ID_HEADER)"
  using assms
proof (induction parser p_buf off n embl_info entry rule: extract_data_loop.induct)
  case (1 parser p_buf off n embl_info entry)
  from "1.prems"(1) obtain r where
    it: "extract_data_iter parser p_buf off n embl_info entry = Some r"
    by (subst (asm) extract_data_loop.simps) (auto split: option.splits)
  from iter_consume [OF it "1.prems"(2)] consider
    (header) "dispatches p_buf (parser, off, n, embl_info, entry) GST_EBML_ID_HEADER"
    | (ret) res' q' where "r = Iter_Return res' q'" "consume parser \<le> consume q'"
    | (cont) q' off' n' info' entry' where "r = Iter_Continue q' off' n' info' entry'"
        "consume parser \<le> consume q'" "unat (consume q') + unat n' < 2 ^ 64"
    by (cases r) auto
  then show ?case
  proof cases
    case header
    moreover have "loop_reaches p_buf (parser, off, n, embl_info, entry)
        (parser, off, n, embl_info, entry)"
      by (rule loop_reaches.here)
    ultimately show ?thesis by blast
  next
    case ret
    with "1.prems"(1) it have "q = q'"
      by (subst (asm) extract_data_loop.simps) simp
    with ret show ?thesis by simp
  next
    case cont
    from "1.prems"(1) it cont(1) have
      loop: "extract_data_loop q' p_buf off' n' info' entry' = Some (res, q)"
      by (subst (asm) extract_data_loop.simps) simp
    from "1.IH" [OF it cont(1) loop cont(3)] show ?thesis
    proof
      assume "consume q' \<le> consume q"
      with cont(2) have "consume parser \<le> consume q"
        by (rule order_trans)
      then show ?thesis by simp
    next
      assume "\<exists>s. loop_reaches p_buf (q', off', n', info', entry') s \<and>
          dispatches p_buf s GST_EBML_ID_HEADER"
      then obtain s where s: "loop_reaches p_buf (q', off', n', info', entry') s"
        "dispatches p_buf s GST_EBML_ID_HEADER"
        by blast
      from reaches_prepend [OF s(1) refl] it cont(1) have
        "loop_reaches p_buf (parser, off, n, embl_info, entry) s"
        by simp
      with s(2) show ?thesis by blast
    qed
  qed
qed

text \<open>
  A header at the cursor whose id field or size field has an encoded length greater than 8
  makes the reader return 0, as missing data does: the loop ends with
  \<open>GST_MATROSKA_PARSER_OK\<close> and the cursor saved at the start of that header.
\<close>

lemma malformed_header_returns_ok:
  assumes buf: "drop (unat off) p_buf = b # bs"
    and bad: "gst_matroska_parser_read_len b > 8 \<or>
              (\<not> n \<le> of_nat (gst_matroska_parser_read_len b) \<and>
               gst_matroska_parser_read_len b < length (b # bs) \<and>
               gst_matroska_parser_read_len ((b # bs) ! gst_matroska_parser_read_len b) > 8)"
  shows "extract_data_loop parser p_buf off n embl_info entry =
           Some (GST_MATROSKA_PARSER_OK,
                 if off \<noteq> 0 then parser\<lparr>offset := off\<rparr> else parser) \<and>
         (status parser = GST_MATROSKA_PARSER_STATUS_DATA \<and> off = offset parser \<and>
          n = of_nat (length p_buf) \<longrightarrow>
          gst_matroska_parser_entry (Some parser) (Some p_buf) =
            Some (GST_MATROSKA_PARSER_OK, Some parser))"
proof -
  have loop: "extract_data_loop parser p_buf off n p_info e =
      Some (GST_MATROSKA_PARSER_OK, if off \<noteq> 0 then parser\<lparr>offset := off\<rparr> else parser)"
    for p_info e
  proof -
    have "\<exists>p_info'. gst_matroska_read_one_ebml_info (b # bs) n p_info = Some (0, p_info')"
    proof (cases "gst_matroska_parser_read_len b > 8")
      case True
      then show ?thesis
        using read_one_bad_id by blast
    next
      case False
      with bad show ?thesis
        by (intro read_one_bad_size [of "gst_matroska_parser_read_len b"]) auto
    qed
    then have "extract_data_iter parser p_buf off n p_info e =
        Some (Iter_Return GST_MATROSKA_PARSER_OK
                (if off \<noteq> 0 then parser\<lparr>offset := off\<rparr> else parser))"
      by (auto simp: extract_data_iter_def buf adjust_consume_zero)
    then show ?thesis
      by (subst extract_data_loop.simps) simp
  qed
  have same: "(if offset parser \<noteq> 0 then parser\<lparr>offset := offset parser\<rparr> else parser) = parser"
    by simp
  have "gst_matroska_parser_entry (Some parser) (Some p_buf) =
          Some (GST_MATROSKA_PARSER_OK, Some parser)"
    if "status parser = GST_MATROSKA_PARSER_STATUS_DATA" "off = offset parser"
      "n = of_nat (length p_buf)"
    using loop [of uninitialised_info None] that
    by (simp add: gst_matroska_parser_entry_def entry_status_data_def
        gst_matroska_parser_extract_data_def same)
  with loop [of embl_info entry] show ?thesis
    by blast
qed

text \<open>
  Claim C10. A CueTime, CueTrack or CueClusterPosition element that is dispatched while
  there is no cue point (null array or \<open>cue_point_num = 0\<close>, the pointer \<open>entry\<close> still
  null) is skipped: the iteration only adds the full element length to \<open>consume\<close> and to
  the cursor, reports no error and goes on (or ends with \<open>GST_MATROSKA_PARSER_DONE\<close> when
  the end of the Cues region is reached); the cue list and the scalar fields are unchanged.
\<close>

theorem cue_leaf_outside_cue_point:
  assumes rd: "gst_matroska_read_one_ebml_info (drop (unat off) p_buf) n embl_info =
               Some (c, info')"
    and c: "c \<noteq> 0" "\<not> n < c"
    and leaf: "ebml_id info' = GST_MATROSKA_ID_CUETIME \<or>
               ebml_id info' = GST_MATROSKA_ID_CUETRACK \<or>
               ebml_id info' = GST_MATROSKA_ID_CUECLUSTERPOSITION"
    and empty: "array parser = None \<or> cue_point_num parser = 0"
  defines "parser' \<equiv> parser\<lparr>consume := consume parser + c\<rparr>"
  shows "extract_data_iter parser p_buf off n embl_info None =
           Some (if len parser \<noteq> 0 \<and> len parser \<le> consume parser'
                 then Iter_Return GST_MATROSKA_PARSER_DONE (parser'\<lparr>offset := off + c\<rparr>)
                 else Iter_Continue parser' (off + c) (n - c) info' None) \<and>
         array parser' = array parser \<and> cue_point_num parser' = cue_point_num parser \<and>
         time_scale parser' = time_scale parser \<and> duration parser' = duration parser \<and>
         segment_offset parser' = segment_offset parser \<and>
         segment_head_offset parser' = segment_head_offset parser \<and>
         len parser' = len parser \<and> status parser' = status parser"
proof -
  from leaf have adj: "adjust_consume info' c = c"
    by (intro adjust_consume_leaf) (auto simp: matroska_ids)
  have ce: "current_entry parser None = None"
    by (rule current_entry_none [OF empty])
  have sw: "extract_data_switch parser info' c None = Some (Switch_Break parser c)"
    by (rule switch_cue_leaf_no_entry [OF leaf])
  show ?thesis
    using c by (simp add: extract_data_iter_def rd adj sw ce extract_data_advance_def
        parser'_def Let_def)
qed

theorem cue_leaf_outside_cue_point_witness:
  "gst_matroska_read_one_ebml_info (drop (unat (5 :: guint64)) stray_cue_time) 4
     uninitialised_info =
     Some (3, \<lparr>ebml_id = 0xB3, ebml_size = 1, data_offset = 2, data_buf = [7, 0]\<rparr>) \<and>
   (3 :: guint64) \<noteq> 0 \<and> \<not> (4 :: guint64) < 3 \<and>
   ebml_id \<lparr>ebml_id = 0xB3, ebml_size = 1, data_offset = 2, data_buf = [7, 0]\<rparr> =
     GST_MATROSKA_ID_CUETIME \<and>
   array after_header = None \<and>
   extract_data_iter after_header stray_cue_time 5 4 uninitialised_info None =
     Some (Iter_Continue (after_header\<lparr>consume := 8\<rparr>) 8 1
       \<lparr>ebml_id = 0xB3, ebml_size = 1, data_offset = 2, data_buf = [7, 0]\<rparr> None)"
proof -
  let ?info = "\<lparr>ebml_id = 0xB3, ebml_size = 1, data_offset = 2, data_buf = [7, 0]\<rparr>"
  have a: "gst_matroska_read_one_ebml_info (drop (unat (5 :: guint64)) stray_cue_time) 4
     uninitialised_info = Some (3, ?info)"
    by code_simp
  have b: "(3 :: guint64) \<noteq> 0" "\<not> (4 :: guint64) < 3"
    by simp_all
  have c: "ebml_id ?info = GST_MATROSKA_ID_CUETIME \<or> ebml_id ?info = GST_MATROSKA_ID_CUETRACK \<or>
      ebml_id ?info = GST_MATROSKA_ID_CUECLUSTERPOSITION"
    by (simp add: GST_MATROSKA_ID_CUETIME_def)
  have d: "array after_header = None \<or> cue_point_num after_header = 0"
    by (simp add: after_header_def zero_parser_def)
  have e: "len after_header = 0" "consume after_header = 5" "array after_header = None"
    by (simp_all add: after_header_def zero_parser_def)
  from cue_leaf_outside_cue_point [OF a b c d] a b e show ?thesis
    by (simp add: GST_MATROSKA_ID_CUETIME_def)
qed

section \<open>Properties of the entry point\<close>

lemma check_id_results:
  assumes "gst_matroska_parser_check_id parser ident n adapter = Some r"
  shows "r = GST_MATROSKA_PARSER_INSUFFICIENT_DATA \<or> r = GST_MATROSKA_PARSER_NOT_SUPPORTED \<or>
         r = GST_MATROSKA_PARSER_OK"
  using assms
  by (auto simp: gst_matroska_parser_check_id_def Let_def split: if_splits option.splits)

lemma data_label:
  assumes run: "entry_status_data parser adapter = Some (res, q)"
  obtains q' where
    "extract_data_loop parser adapter (offset parser) (of_nat (length adapter))
       uninitialised_info None = Some (res, q')"
    "q = (if res \<noteq> GST_MATROSKA_PARSER_DONE then q'
          else q'\<lparr>status := GST_MATROSKA_PARSER_STATUS_FINISHED\<rparr>)"
  using run
  by (auto simp: entry_status_data_def gst_matroska_parser_extract_data_def
      split: option.splits if_splits)

lemma header_label:
  assumes run: "entry_status_header parser adapter = Some (res, q)"
  shows "(loop_start_after_check parser adapter = None \<and> q = parser \<and>
          (res = GST_MATROSKA_PARSER_INSUFFICIENT_DATA \<or>
           res = GST_MATROSKA_PARSER_NOT_SUPPORTED)) \<or>
         (loop_start_after_check parser adapter =
            Some (loop_entry_state (parser\<lparr>status := GST_MATROSKA_PARSER_STATUS_DATA\<rparr>)
                    adapter) \<and>
          entry_status_data (parser\<lparr>status := GST_MATROSKA_PARSER_STATUS_DATA\<rparr>) adapter =
            Some (res, q))"
proof -
  from run obtain r where
    chk: "gst_matroska_parser_check_id parser (ucast GST_EBML_ID_HEADER) 4 adapter = Some r"
    by (auto simp: entry_status_header_def split: option.splits)
  show ?thesis
  proof (cases "r = GST_MATROSKA_PARSER_OK")
    case True
    with run chk show ?thesis
      by (simp add: entry_status_header_def loop_start_after_check_def)
  next
    case False
    with run chk check_id_results [OF chk] show ?thesis
      by (auto simp: entry_status_header_def loop_start_after_check_def)
  qed
qed

lemma entry_cases:
  assumes run: "gst_matroska_parser_entry (Some parser) (Some adapter) = Some (res, Some q)"
    and nf: "status parser \<noteq> GST_MATROSKA_PARSER_STATUS_FINISHED"
  shows "\<exists>pre. (status parser = GST_MATROSKA_PARSER_STATUS_INIT \<longrightarrow>
                  pre = zero_parser\<lparr>status := GST_MATROSKA_PARSER_STATUS_HEADER\<rparr>) \<and>
               (status parser \<noteq> GST_MATROSKA_PARSER_STATUS_INIT \<longrightarrow> pre = parser) \<and>
               ((entry_loop_start parser adapter = None \<and> q = pre \<and>
                 (res = GST_MATROSKA_PARSER_INSUFFICIENT_DATA \<or>
                  res = GST_MATROSKA_PARSER_NOT_SUPPORTED)) \<or>
                (entry_loop_start parser adapter =
                   Some (loop_entry_state
                           (pre\<lparr>status := GST_MATROSKA_PARSER_STATUS_DATA\<rparr>) adapter) \<and>
                 entry_status_data (pre\<lparr>status := GST_MATROSKA_PARSER_STATUS_DATA\<rparr>) adapter =
                   Some (res, q)))"
proof (cases "status parser")
  case GST_MATROSKA_PARSER_STATUS_INIT
  with run have "entry_status_header
      (zero_parser\<lparr>status := GST_MATROSKA_PARSER_STATUS_HEADER\<rparr>) adapter = Some (res, q)"
    by (auto simp: gst_matroska_parser_entry_def entry_status_init_def
        gst_matroska_parser_init_def)
  from header_label [OF this] GST_MATROSKA_PARSER_STATUS_INIT show ?thesis
    by (auto simp: entry_loop_start_def gst_matroska_parser_init_def)
next
  case GST_MATROSKA_PARSER_STATUS_HEADER
  with run have "entry_status_header parser adapter = Some (res, q)"
    by (auto simp: gst_matroska_parser_entry_def)
  from header_label [OF this] GST_MATROSKA_PARSER_STATUS_HEADER show ?thesis
    by (auto simp: entry_loop_start_def)
next
  case GST_MATROSKA_PARSER_STATUS_DATA
  with run have data: "entry_status_data parser adapter = Some (res, q)"
    by (auto simp: gst_matroska_parser_entry_def)
  have same: "parser\<lparr>status := GST_MATROSKA_PARSER_STATUS_DATA\<rparr> = parser"
    using GST_MATROSKA_PARSER_STATUS_DATA by simp
  have "entry_loop_start parser adapter = Some (loop_entry_state parser adapter)"
    using GST_MATROSKA_PARSER_STATUS_DATA by (simp add: entry_loop_start_def)
  with data GST_MATROSKA_PARSER_STATUS_DATA show ?thesis
    by (intro exI [of _ parser]) (simp add: same)
next
  case GST_MATROSKA_PARSER_STATUS_FINISHED
  with nf show ?thesis by simp
qed

lemma entry_never_error:
  "gst_matroska_parser_entry parser adapter \<noteq> Some (GST_MATROSKA_PARSER_ERROR, q)"
proof
  assume run: "gst_matroska_parser_entry parser adapter = Some (GST_MATROSKA_PARSER_ERROR, q)"
  then obtain p a q' where pa: "parser = Some p" "adapter = Some a" "q = Some q'"
    by (auto simp: gst_matroska_parser_entry_def split: option.splits)
  show False
  proof (cases "status p = GST_MATROSKA_PARSER_STATUS_FINISHED")
    case True
    with run pa show False
      by (simp add: gst_matroska_parser_entry_def)
  next
    case False
    from entry_cases [OF run [unfolded pa] False] obtain pre where
      "entry_status_data (pre\<lparr>status := GST_MATROSKA_PARSER_STATUS_DATA\<rparr>) a =
         Some (GST_MATROSKA_PARSER_ERROR, q')"
      by auto
    then show False
      by (elim data_label) (auto dest: loop_answers)
  qed
qed

text \<open>
  Claim C1, as amended. On a parser whose status is Finished the entry point changes
  nothing, neither the parser state nor the cue table, whatever the window is; the result
  is \<open>GST_MATROSKA_PARSER_OK\<close>, the initial value of \<open>res\<close>. The result
  \<open>GST_MATROSKA_PARSER_DONE\<close> comes only from an invocation that starts on a parser
  that is not Finished and leaves it Finished.
\<close>

theorem entry_finished_unchanged_ok:
  "(status parser = GST_MATROSKA_PARSER_STATUS_FINISHED \<longrightarrow>
      gst_matroska_parser_entry (Some parser) (Some adapter) =
        Some (GST_MATROSKA_PARSER_OK, Some parser)) \<and>
   (gst_matroska_parser_entry (Some parser) (Some adapter) =
      Some (GST_MATROSKA_PARSER_DONE, Some q) \<longrightarrow>
      status parser \<noteq> GST_MATROSKA_PARSER_STATUS_FINISHED \<and>
      status q = GST_MATROSKA_PARSER_STATUS_FINISHED)"
proof (intro conjI impI)
  assume "status parser = GST_MATROSKA_PARSER_STATUS_FINISHED"
  then show "gst_matroska_parser_entry (Some parser) (Some adapter) =
      Some (GST_MATROSKA_PARSER_OK, Some parser)"
    by (simp add: gst_matroska_parser_entry_def)
next
  assume run: "gst_matroska_parser_entry (Some parser) (Some adapter) =
      Some (GST_MATROSKA_PARSER_DONE, Some q)"
  then show nf: "status parser \<noteq> GST_MATROSKA_PARSER_STATUS_FINISHED"
    by (auto simp: gst_matroska_parser_entry_def)
  from entry_cases [OF run nf] obtain p0 where
    "entry_status_data p0 adapter = Some (GST_MATROSKA_PARSER_DONE, q)"
    by blast
  then show "status q = GST_MATROSKA_PARSER_STATUS_FINISHED"
    by (rule data_label) simp
qed

theorem entry_finished_unchanged_ok_witness:
  "status scenario_parsed = GST_MATROSKA_PARSER_STATUS_FINISHED \<and>
   gst_matroska_parser_entry (Some scenario_parsed) (Some scenario) =
     Some (GST_MATROSKA_PARSER_OK, Some scenario_parsed) \<and>
   gst_matroska_parser_entry (Some zero_parser) (Some scenario) =
     Some (GST_MATROSKA_PARSER_DONE, Some scenario_parsed) \<and>
   status zero_parser \<noteq> GST_MATROSKA_PARSER_STATUS_FINISHED"
proof -
  have fin: "status scenario_parsed = GST_MATROSKA_PARSER_STATUS_FINISHED"
    by (simp add: scenario_parsed_def)
  have run: "gst_matroska_parser_entry (Some zero_parser) (Some scenario) =
      Some (GST_MATROSKA_PARSER_DONE, Some scenario_parsed)"
    by code_simp
  from entry_finished_unchanged_ok [of scenario_parsed scenario scenario_parsed]
    entry_finished_unchanged_ok [of zero_parser scenario scenario_parsed] fin run
  show ?thesis
    by simp
qed

text \<open>
  The claim as stated fails: the parser that has finished on \<open>scenario\<close>, invoked again,
  does not return \<open>GST_MATROSKA_PARSER_DONE\<close>.
\<close>

theorem entry_finished_not_done:
  "gst_matroska_parser_entry (Some zero_parser) (Some scenario) =
     Some (GST_MATROSKA_PARSER_DONE, Some scenario_parsed) \<and>
   status scenario_parsed = GST_MATROSKA_PARSER_STATUS_FINISHED \<and>
   fst (the (gst_matroska_parser_entry (Some scenario_parsed) (Some scenario))) \<noteq>
     GST_MATROSKA_PARSER_DONE"
  by code_simp

text \<open>
  Claim C8. With a null parser or a null adapter the entry point returns
  \<open>GST_MATROSKA_PARSER_NOT_SUPPORTED\<close>, not \<open>GST_MATROSKA_PARSER_ERROR_PARAM\<close>, and
  touches nothing.
\<close>

theorem entry_null_argument:
  "gst_matroska_parser_entry None adapter = Some (GST_MATROSKA_PARSER_NOT_SUPPORTED, None) \<and>
   gst_matroska_parser_entry parser None = Some (GST_MATROSKA_PARSER_NOT_SUPPORTED, parser)"
  by (simp add: gst_matroska_parser_entry_def split: option.splits)

text \<open>
  Claim C2. The claim asks for \<open>GST_MATROSKA_PARSER_ERROR\<close> when a field of encoded
  length greater than 8 is met. In \<open>zero_id\<close> the header after the EBML header starts
  with an id field of encoded length 9, in \<open>zero_size\<close> it has a size field of encoded
  length 9. On both the entry point returns \<open>GST_MATROSKA_PARSER_OK\<close>, from the start
  of the stream and again when it is resumed at the malformed header: the first invocation
  advances \<open>offset\<close> and \<open>consume\<close> from 0 to 5, over the EBML header, and the resumed
  one leaves the parser as it is. The result is the same when 64 more bytes follow the
  malformed field, so that the remaining size is greater than 9 and the test \<open>len > 8\<close>
  alone makes the header reader return 0.
\<close>

theorem malformed_field_length_not_error:
  "gst_matroska_parser_read_len (zero_id ! 5) = 9 \<and>
   gst_matroska_parser_entry (Some zero_parser) (Some zero_id) =
     Some (GST_MATROSKA_PARSER_OK, Some after_header) \<and>
   offset after_header = 5 \<and> consume after_header = 5 \<and>
   gst_matroska_parser_entry (Some after_header) (Some zero_id) =
     Some (GST_MATROSKA_PARSER_OK, Some after_header) \<and>
   gst_matroska_parser_read_len (zero_size ! 6) = 9 \<and>
   gst_matroska_parser_entry (Some zero_parser) (Some zero_size) =
     Some (GST_MATROSKA_PARSER_OK, Some after_header) \<and>
   gst_matroska_parser_entry (Some after_header) (Some zero_size) =
     Some (GST_MATROSKA_PARSER_OK, Some after_header) \<and>
   length (zero_id @ scenario) = 71 \<and> length (zero_size @ scenario) = 72 \<and>
   gst_matroska_parser_entry (Some zero_parser) (Some (zero_id @ scenario)) =
     Some (GST_MATROSKA_PARSER_OK, Some after_header) \<and>
   gst_matroska_parser_entry (Some after_header) (Some (zero_id @ scenario)) =
     Some (GST_MATROSKA_PARSER_OK, Some after_header) \<and>
   gst_matroska_parser_entry (Some zero_parser) (Some (zero_size @ scenario)) =
     Some (GST_MATROSKA_PARSER_OK, Some after_header) \<and>
   gst_matroska_parser_entry (Some after_header) (Some (zero_size @ scenario)) =
     Some (GST_MATROSKA_PARSER_OK, Some after_header) \<and>
   GST_MATROSKA_PARSER_OK \<noteq> GST_MATROSKA_PARSER_ERROR"
  by code_simp




text \<open>
  Claim C9, as amended. Across one invocation of the entry point \<open>consume\<close> does not
  decrease, unless one of the iterations of that invocation dispatches an EBML Header
  element; such an iteration sets \<open>consume\<close> to zero before the length of the element is
  added, so that it ends with \<open>consume\<close> equal to that length. (A parser in the status
  Init is zeroed first, so it starts from \<open>consume = 0\<close>; the sums are meant without
  64-bit overflow.)
\<close>

theorem consume_nondecreasing_unless_header:
  assumes run: "gst_matroska_parser_entry (Some parser) (Some adapter) =
                Some (res, Some q)"
    and init: "status parser = GST_MATROSKA_PARSER_STATUS_INIT \<longrightarrow> consume parser = 0"
    and b1: "unat (consume parser) + length adapter < 2 ^ 64"
  shows "(consume parser \<le> consume q \<or>
          (\<exists>s. invocation_state parser adapter s \<and>
               dispatches adapter s GST_EBML_ID_HEADER)) \<and>
         (\<forall>p1 off1 n1 i1 e1.
            dispatches adapter (p1, off1, n1, i1, e1) GST_EBML_ID_HEADER \<longrightarrow>
            (\<exists>c0 info' r.
               gst_matroska_read_one_ebml_info (drop (unat off1) adapter) n1 i1 =
                 Some (c0, info') \<and>
               extract_data_iter p1 adapter off1 n1 i1 e1 = Some r \<and>
               consume (iter_parser r) = c0))"
proof (intro conjI allI impI)
  fix p1 off1 n1 i1 e1
  assume "dispatches adapter (p1, off1, n1, i1, e1) GST_EBML_ID_HEADER"
  then show "\<exists>c0 info' r.
      gst_matroska_read_one_ebml_info (drop (unat off1) adapter) n1 i1 = Some (c0, info') \<and>
      extract_data_iter p1 adapter off1 n1 i1 e1 = Some r \<and>
      consume (iter_parser r) = c0"
    by (rule iter_header)
next
  show "consume parser \<le> consume q \<or>
      (\<exists>s. invocation_state parser adapter s \<and> dispatches adapter s GST_EBML_ID_HEADER)"
  proof (cases "status parser = GST_MATROSKA_PARSER_STATUS_FINISHED")
    case True
    with run show ?thesis
      by (auto simp: gst_matroska_parser_entry_def)
  next
    case False
    from entry_cases [OF run False] obtain pre where
      pre: "status parser = GST_MATROSKA_PARSER_STATUS_INIT \<longrightarrow>
              pre = zero_parser\<lparr>status := GST_MATROSKA_PARSER_STATUS_HEADER\<rparr>"
        "status parser \<noteq> GST_MATROSKA_PARSER_STATUS_INIT \<longrightarrow> pre = parser"
      and alt: "(entry_loop_start parser adapter = None \<and> q = pre \<and>
                 (res = GST_MATROSKA_PARSER_INSUFFICIENT_DATA \<or>
                  res = GST_MATROSKA_PARSER_NOT_SUPPORTED)) \<or>
                (entry_loop_start parser adapter =
                   Some (loop_entry_state
                           (pre\<lparr>status := GST_MATROSKA_PARSER_STATUS_DATA\<rparr>) adapter) \<and>
                 entry_status_data (pre\<lparr>status := GST_MATROSKA_PARSER_STATUS_DATA\<rparr>) adapter =
                   Some (res, q))"
      by blast
    have cpre: "consume pre = consume parser"
      using pre init by (cases "status parser = GST_MATROSKA_PARSER_STATUS_INIT")
        (auto simp: zero_parser_def)
    from alt show ?thesis
    proof
      assume "entry_loop_start parser adapter = None \<and> q = pre \<and>
          (res = GST_MATROSKA_PARSER_INSUFFICIENT_DATA \<or>
           res = GST_MATROSKA_PARSER_NOT_SUPPORTED)"
      with cpre show ?thesis by simp
    next
      let ?p0 = "pre\<lparr>status := GST_MATROSKA_PARSER_STATUS_DATA\<rparr>"
      let ?n = "of_nat (length adapter) :: guint64"
      assume a: "entry_loop_start parser adapter = Some (loop_entry_state ?p0 adapter) \<and>
          entry_status_data ?p0 adapter = Some (res, q)"
      then obtain q' where
        loop: "extract_data_loop ?p0 adapter (offset ?p0) ?n uninitialised_info None =
               Some (res, q')"
        and q: "q = (if res \<noteq> GST_MATROSKA_PARSER_DONE then q'
                     else q'\<lparr>status := GST_MATROSKA_PARSER_STATUS_FINISHED\<rparr>)"
        by (blast elim: data_label)
      have "unat ?n \<le> length adapter"
        by (simp add: unat_of_nat)
      with b1 cpre have "unat (consume ?p0) + unat ?n < 2 ^ 64"
        by simp
      from loop_consume [OF loop this] have
        "consume ?p0 \<le> consume q' \<or>
         (\<exists>s. loop_reaches adapter (?p0, offset ?p0, ?n, uninitialised_info, None) s \<and>
              dispatches adapter s GST_EBML_ID_HEADER)" .
      moreover have "consume q = consume q'"
        by (simp add: q)
      moreover have "invocation_state parser adapter s =
          loop_reaches adapter (?p0, offset ?p0, ?n, uninitialised_info, None) s" for s
        using a by (simp add: invocation_state_def loop_entry_state_def)
      ultimately show ?thesis
        using cpre by auto
    qed
  qed
qed

theorem consume_nondecreasing_unless_header_witness:
  "gst_matroska_parser_entry (Some after_header) (Some scenario) =
     Some (GST_MATROSKA_PARSER_DONE, Some scenario_parsed) \<and>
   status after_header = GST_MATROSKA_PARSER_STATUS_DATA \<and>
   unat (consume after_header) + length scenario < 2 ^ 64 \<and>
   consume after_header = 5 \<and> consume scenario_parsed = 58 \<and>
   gst_matroska_parser_entry (Some restart_parser) (Some restart_stream) =
     Some (GST_MATROSKA_PARSER_DONE,
           Some (restart_parser\<lparr>consume := 5,
                   status := GST_MATROSKA_PARSER_STATUS_FINISHED\<rparr>)) \<and>
   consume restart_parser = 13 \<and>
   unat (consume restart_parser) + length restart_stream < 2 ^ 64 \<and>
   (\<exists>s. invocation_state restart_parser restart_stream s \<and>
        dispatches restart_stream s GST_EBML_ID_HEADER) \<and>
   dispatches restart_stream (restart_parser, 13, 24, uninitialised_info, None)
     GST_EBML_ID_HEADER \<and>
   (\<exists>c0 info' r.
      gst_matroska_read_one_ebml_info (drop (unat (13 :: guint64)) restart_stream) 24
        uninitialised_info = Some (c0, info') \<and>
      extract_data_iter restart_parser restart_stream 13 24 uninitialised_info None =
        Some r \<and>
      consume (iter_parser r) = c0 \<and> c0 = 5)"
proof -
  let ?q = "restart_parser\<lparr>consume := 5, status := GST_MATROSKA_PARSER_STATUS_FINISHED\<rparr>"
  have run1: "gst_matroska_parser_entry (Some after_header) (Some scenario) =
      Some (GST_MATROSKA_PARSER_DONE, Some scenario_parsed)"
    by code_simp
  have run2: "gst_matroska_parser_entry (Some restart_parser) (Some restart_stream) =
      Some (GST_MATROSKA_PARSER_DONE, Some ?q)"
    by code_simp
  have s: "status after_header = GST_MATROSKA_PARSER_STATUS_DATA"
    "consume after_header = 5" "consume scenario_parsed = 58"
    "status restart_parser = GST_MATROSKA_PARSER_STATUS_DATA" "consume restart_parser = 13"
    by (simp_all add: after_header_def zero_parser_def scenario_parsed_def restart_parser_def)
  have n: "length scenario = 64" "length restart_stream = 24"
    by (simp_all add: scenario_def restart_stream_def void_stream_def)
  have b: "unat (consume after_header) + length scenario < 2 ^ 64"
    "unat (consume restart_parser) + length restart_stream < 2 ^ 64"
    by (simp_all add: s n)
  have i: "status after_header = GST_MATROSKA_PARSER_STATUS_INIT \<longrightarrow> consume after_header = 0"
    "status restart_parser = GST_MATROSKA_PARSER_STATUS_INIT \<longrightarrow> consume restart_parser = 0"
    using s by simp_all
  have d: "dispatches restart_stream (restart_parser, 13, 24, uninitialised_info, None)
      GST_EBML_ID_HEADER"
    by code_simp
  have rd: "gst_matroska_read_one_ebml_info (drop (unat (13 :: guint64)) restart_stream) 24
      uninitialised_info =
      Some (5, \<lparr>ebml_id = 0x1A45DFA3, ebml_size = 0, data_offset = 5,
                data_buf = [0x1F, 0x43, 0xB6, 0x75, 0x80, 0x00]\<rparr>)"
    by code_simp
  note t = consume_nondecreasing_unless_header [OF run2 i(2) b(2)]
  have "\<not> consume restart_parser \<le> consume ?q"
    by (simp add: s)
  with t have hdr: "\<exists>s. invocation_state restart_parser restart_stream s \<and>
      dispatches restart_stream s GST_EBML_ID_HEADER"
    by blast
  from t d have "\<exists>c0 info' r.
      gst_matroska_read_one_ebml_info (drop (unat (13 :: guint64)) restart_stream) 24
        uninitialised_info = Some (c0, info') \<and>
      extract_data_iter restart_parser restart_stream 13 24 uninitialised_info None =
        Some r \<and>
      consume (iter_parser r) = c0"
    by blast
  then have reset: "\<exists>c0 info' r.
      gst_matroska_read_one_ebml_info (drop (unat (13 :: guint64)) restart_stream) 24
        uninitialised_info = Some (c0, info') \<and>
      extract_data_iter restart_parser restart_stream 13 24 uninitialised_info None =
        Some r \<and>
      consume (iter_parser r) = c0 \<and> c0 = 5"
    unfolding rd by auto
  from run1 run2 s b hdr d reset show ?thesis
    by blast
qed

text \<open>
  The claim as stated, for any input stream, fails: after \<open>void_stream\<close> the counter is 13;
  the next invocation, on \<open>restart_stream\<close>, dispatches the second EBML header and ends
  with the counter at 5.
\<close>

theorem consume_reset_by_second_header:
  "gst_matroska_parser_entry (Some zero_parser) (Some void_stream) =
     Some (GST_MATROSKA_PARSER_OK,
           Some (zero_parser\<lparr>status := GST_MATROSKA_PARSER_STATUS_DATA, offset := 13,
                   consume := 13\<rparr>)) \<and>
   gst_matroska_parser_entry
     (Some (zero_parser\<lparr>status := GST_MATROSKA_PARSER_STATUS_DATA, offset := 13,
              consume := 13\<rparr>))
     (Some restart_stream) =
     Some (GST_MATROSKA_PARSER_DONE,
           Some (zero_parser\<lparr>status := GST_MATROSKA_PARSER_STATUS_FINISHED, offset := 13,
                   consume := 5\<rparr>)) \<and>
   \<not> (13 :: guint64) \<le> 5"
  by code_simp

section \<open>Properties of the callers\<close>

text \<open>
  Claim C3. One call on the complete \<open>scenario\<close> ends with
  \<open>GST_MATROSKA_PARSER_DONE\<close>, time scale 1000000 and the two cue points. Fed byte by
  byte, the first six calls consume the EBML header and save the cursor 5; the seventh call
  passes the whole available length 7 as the remaining size of the window that starts at
  the cursor, so that the header reader takes four id bytes where two are mapped: the
  call reads past the window and the run has no result to compare.
\<close>

theorem byte_by_byte_reads_past_window:
  "gst_matroska_parser_entry (Some zero_parser) (Some scenario) =
     Some (GST_MATROSKA_PARSER_DONE, Some scenario_parsed) \<and>
   feed_windows zero_parser (byte_by_byte (take 6 scenario)) = Some after_header \<and>
   gst_matroska_parser_entry (Some after_header) (Some (take 7 scenario)) = None \<and>
   feed_windows zero_parser (byte_by_byte scenario) = None"
  by code_simp

end
